theory Spec2Isabelle
  imports Main
begin

section \<open>The Bricks notebook (PuLP/BricksLinear.ipynb) as a pure model\<close>

text \<open>
  The notebook builds a 0/1 integer program with PuLP, cell by cell, hands it to the
  solver and prints the solved variables as a grid. Each code cell is one definition
  below. The problem data of the notebook (\<open>XSIZE\<close>, \<open>YSIZE\<close>, \<open>bricks\<close>, \<open>pairs\<close>) are
  parameters \<open>nx\<close>, \<open>ny\<close>, \<open>bs\<close>, \<open>ps\<close> of the cells that read them; the values the
  notebook gives them are the constants of the last subsection. The sizes are
  natural numbers: \<open>range(n)\<close> is \<open>[0..<n]\<close>.

  A PuLP variable \<open>v[x][y][b][rb]\<close> is identified with its index tuple. A linear
  expression is the list of its terms (coefficient, variable), as \<open>lpSum\<close> receives
  them; its value under an assignment is the sum of all terms, so a variable that
  occurs twice counts twice, as PuLP's merged coefficient does.
\<close>

subsection \<open>Data\<close>

type_synonym brick = string

type_synonym var = "nat \<times> nat \<times> brick \<times> nat"

type_synonym lin_expr = "(int \<times> var) list"

datatype error = KeyError

datatype rel = LE | EQ

record constraint =
  lhs :: lin_expr
  rel :: rel
  rhs :: int

datatype lp_sense = LpMinimize | LpMaximize

record lp_problem =
  name :: string
  sense :: lp_sense
  objective :: lin_expr
  constraints :: "constraint list"

subsection \<open>Exceptions as values\<close>

definition bind_result :: "error + 'a \<Rightarrow> ('a \<Rightarrow> error + 'b) \<Rightarrow> error + 'b" where
  "bind_result r f = (case r of Inl e \<Rightarrow> Inl e | Inr x \<Rightarrow> f x)"

text \<open>A list comprehension whose element expression may raise: the first raise wins.\<close>

fun traverse :: "('a \<Rightarrow> error + 'b) \<Rightarrow> 'a list \<Rightarrow> error + 'b list" where
  "traverse f [] = Inr []"
| "traverse f (x # xs) =
     (case f x of
        Inl e \<Rightarrow> Inl e
      | Inr y \<Rightarrow> (case traverse f xs of Inl e \<Rightarrow> Inl e | Inr ys \<Rightarrow> Inr (y # ys)))"

text \<open>A \<open>for\<close> loop that updates a state and whose body may raise.\<close>

fun fold_result :: "('s \<Rightarrow> 'a \<Rightarrow> error + 's) \<Rightarrow> 's \<Rightarrow> 'a list \<Rightarrow> error + 's" where
  "fold_result f s [] = Inr s"
| "fold_result f s (x # xs) =
     (case f s x of Inl e \<Rightarrow> Inl e | Inr s' \<Rightarrow> fold_result f s' xs)"

text \<open>Subscripting a dict: \<open>d[k]\<close> raises \<open>KeyError\<close> on a missing key.\<close>

definition lookup :: "('k \<rightharpoonup> 'v) \<Rightarrow> 'k \<Rightarrow> error + 'v" where
  "lookup d k = (case d k of None \<Rightarrow> Inl KeyError | Some x \<Rightarrow> Inr x)"

subsection \<open>Cell 2: the positions\<close>

text \<open>\<^verbatim>\<open>positions = [(x,y) for x in range(XSIZE) for y in range(YSIZE)]\<close>\<close>

definition positions :: "nat \<Rightarrow> nat \<Rightarrow> (nat \<times> nat) list" where
  "positions nx ny = [(x, y). x \<leftarrow> [0..<nx], y \<leftarrow> [0..<ny]]"

subsection \<open>Cell 3: the variables\<close>

text \<open>
  \<^verbatim>\<open>v = LpVariable.dicts("bricks", (range(XSIZE), range(YSIZE), bricks, range(XSIZE)),
                       lowBound = 0, upBound = 1, cat = LpInteger)\<close>

  \<open>LpVariable.dicts\<close> walks the four index lists and stores, in nested dicts keyed by
  the indices, one variable with the given bounds and category per index tuple. An
  index that occurs twice in its list is assigned twice and is one key: \<open>dict_keys\<close>
  gives the keys of a dict filled in list order, each once, in order of first
  assignment. \<open>LpVariable_dicts\<close> is the list of the entries of the nested dicts, key
  tuple and variable; \<open>v_items\<close> is that of the notebook's \<open>v\<close>, and \<open>v\<close> itself
  the list of its keys, since a variable is identified with its key. \<open>v_get\<close> is the
  subscript \<open>v[x][y][b][rb]\<close>.
\<close>

datatype lp_category = LpContinuous | LpInteger

record lp_variable =
  lowBound :: int
  upBound :: int
  cat :: lp_category

definition dict_keys :: "'a list \<Rightarrow> 'a list" where
  "dict_keys xs = rev (remdups (rev xs))"

definition LpVariable_dicts ::
  "nat list \<Rightarrow> nat list \<Rightarrow> brick list \<Rightarrow> nat list \<Rightarrow> int \<Rightarrow> int \<Rightarrow> lp_category
    \<Rightarrow> (var \<times> lp_variable) list" where
  "LpVariable_dicts xs ys bs rbs lo up c =
     [((x, y, b, rb), \<lparr>lowBound = lo, upBound = up, cat = c\<rparr>).
        x \<leftarrow> dict_keys xs, y \<leftarrow> dict_keys ys, b \<leftarrow> dict_keys bs, rb \<leftarrow> dict_keys rbs]"

definition v_items :: "nat \<Rightarrow> nat \<Rightarrow> brick list \<Rightarrow> (var \<times> lp_variable) list" where
  "v_items nx ny bs = LpVariable_dicts [0..<nx] [0..<ny] bs [0..<nx] 0 1 LpInteger"

definition v :: "nat \<Rightarrow> nat \<Rightarrow> brick list \<Rightarrow> var list" where
  "v nx ny bs = map fst (v_items nx ny bs)"

definition v_get :: "nat \<Rightarrow> nat \<Rightarrow> brick list \<Rightarrow> nat \<Rightarrow> nat \<Rightarrow> brick \<Rightarrow> nat \<Rightarrow> error + var" where
  "v_get nx ny bs x y b rb =
     (if x \<in> set [0..<nx] \<and> y \<in> set [0..<ny] \<and> b \<in> set bs \<and> rb \<in> set [0..<nx]
      then Inr (x, y, b, rb) else Inl KeyError)"

subsection \<open>Cell 4: the problem\<close>

text \<open>\<^verbatim>\<open>m = LpProblem("Bricks", LpMinimize)\<close>; \<open>m += c\<close> appends a constraint.\<close>

definition LpProblem :: "string \<Rightarrow> lp_sense \<Rightarrow> lp_problem" where
  "LpProblem n s = \<lparr>name = n, sense = s, objective = [], constraints = []\<rparr>"

definition add_constraint :: "lp_problem \<Rightarrow> constraint \<Rightarrow> lp_problem" where
  "add_constraint m c = m\<lparr>constraints := constraints m @ [c]\<rparr>"

text \<open>A loop whose body is \<open>m += <constraint>\<close>, over the index list \<open>is\<close>.\<close>

definition add_constraints ::
  "('i \<Rightarrow> error + constraint) \<Rightarrow> lp_problem \<Rightarrow> 'i list \<Rightarrow> error + lp_problem" where
  "add_constraints mk m is =
     fold_result (\<lambda>m i. bind_result (mk i) (\<lambda>c. Inr (add_constraint m c))) m is"

subsection \<open>Cell 5: the penalties\<close>

text \<open>
  \<^verbatim>\<open>penalties = {}
for x in range(XSIZE):
    for rb in range(XSIZE):
        penalties[(x, rb)] = 10 * abs(rb - x)\<close>
\<close>

definition penalties :: "nat \<Rightarrow> (nat \<times> nat) \<rightharpoonup> int" where
  "penalties nx =
     foldl (\<lambda>d x. foldl (\<lambda>d rb. d((x, rb) \<mapsto> 10 * \<bar>int rb - int x\<bar>)) d [0..<nx])
       Map.empty [0..<nx]"

subsection \<open>Cell 6: the objective\<close>

text \<open>
  \<^verbatim>\<open>m += lpSum([penalties[(x,rb)] * v[x][y][b][rb]
            for x,y in positions for b in bricks for rb in range(XSIZE)])\<close>
\<close>

definition objective_cell :: "nat \<Rightarrow> nat \<Rightarrow> brick list \<Rightarrow> lp_problem \<Rightarrow> error + lp_problem" where
  "objective_cell nx ny bs m =
     bind_result
       (traverse
          (\<lambda>((x, y), b, rb).
             bind_result (lookup (penalties nx) (x, rb)) (\<lambda>p.
             bind_result (v_get nx ny bs x y b rb) (\<lambda>k. Inr (p, k))))
          [((x, y), b, rb). (x, y) \<leftarrow> positions nx ny, b \<leftarrow> bs, rb \<leftarrow> [0..<nx]])
       (\<lambda>ts. Inr (m\<lparr>objective := ts\<rparr>))"

subsection \<open>Cells 7 to 10: the constraints\<close>

text \<open>
  \<^verbatim>\<open>for x, y in positions:
        m += lpSum([v[x][y][b][rb] for b in bricks for rb in range(XSIZE)]) <= 1\<close>
\<close>

definition occupancy_cell :: "nat \<Rightarrow> nat \<Rightarrow> brick list \<Rightarrow> lp_problem \<Rightarrow> error + lp_problem" where
  "occupancy_cell nx ny bs m =
     add_constraints
       (\<lambda>(x, y).
          bind_result
            (traverse (\<lambda>(b, rb). bind_result (v_get nx ny bs x y b rb) (\<lambda>k. Inr (1, k)))
               [(b, rb). b \<leftarrow> bs, rb \<leftarrow> [0..<nx]])
            (\<lambda>ts. Inr \<lparr>lhs = ts, rel = LE, rhs = 1\<rparr>))
       m (positions nx ny)"

text \<open>
  \<^verbatim>\<open>for b in bricks:
    m += lpSum([v[x][y][b][rb] for x, y in positions for rb in range(XSIZE)]) == 1\<close>
\<close>

definition placement_cell :: "nat \<Rightarrow> nat \<Rightarrow> brick list \<Rightarrow> lp_problem \<Rightarrow> error + lp_problem" where
  "placement_cell nx ny bs m =
     add_constraints
       (\<lambda>b.
          bind_result
            (traverse (\<lambda>((x, y), rb). bind_result (v_get nx ny bs x y b rb) (\<lambda>k. Inr (1, k)))
               [((x, y), rb). (x, y) \<leftarrow> positions nx ny, rb \<leftarrow> [0..<nx]])
            (\<lambda>ts. Inr \<lparr>lhs = ts, rel = EQ, rhs = 1\<rparr>))
       m bs"

text \<open>
  \<^verbatim>\<open>for x in range(XSIZE):
    for rb in range(XSIZE):
        if x > rb:
            m += lpSum([v[x][y][b][rb] for y in range(YSIZE) for b in bricks]) == 0\<close>
\<close>

definition boundary_cell :: "nat \<Rightarrow> nat \<Rightarrow> brick list \<Rightarrow> lp_problem \<Rightarrow> error + lp_problem" where
  "boundary_cell nx ny bs m =
     add_constraints
       (\<lambda>(x, rb).
          bind_result
            (traverse (\<lambda>(y, b). bind_result (v_get nx ny bs x y b rb) (\<lambda>k. Inr (1, k)))
               [(y, b). y \<leftarrow> [0..<ny], b \<leftarrow> bs])
            (\<lambda>ts. Inr \<lparr>lhs = ts, rel = EQ, rhs = 0\<rparr>))
       m [(x, rb). x \<leftarrow> [0..<nx], rb \<leftarrow> [0..<nx], x > rb]"

text \<open>
  \<^verbatim>\<open>for b1, b2 in pairs:
    for rb in range(XSIZE):
        m += lpSum([v[x][y][b1][rb] for x,y in positions] +
                   [-v[x][y][b2][rb] for x,y in positions]) == 0\<close>
\<close>

definition cohesion_cell ::
  "nat \<Rightarrow> nat \<Rightarrow> brick list \<Rightarrow> (brick \<times> brick) list \<Rightarrow> lp_problem \<Rightarrow> error + lp_problem" where
  "cohesion_cell nx ny bs ps m =
     add_constraints
       (\<lambda>((b1, b2), rb).
          bind_result
            (traverse (\<lambda>(x, y). bind_result (v_get nx ny bs x y b1 rb) (\<lambda>k. Inr (1, k)))
               (positions nx ny)) (\<lambda>ts1.
          bind_result
            (traverse (\<lambda>(x, y). bind_result (v_get nx ny bs x y b2 rb) (\<lambda>k. Inr (- 1, k)))
               (positions nx ny)) (\<lambda>ts2.
          Inr \<lparr>lhs = ts1 @ ts2, rel = EQ, rhs = 0\<rparr>)))
       m [((b1, b2), rb). (b1, b2) \<leftarrow> ps, rb \<leftarrow> [0..<nx]]"

subsection \<open>The whole model, cells 4 to 10 in order\<close>

definition build ::
  "nat \<Rightarrow> nat \<Rightarrow> brick list \<Rightarrow> (brick \<times> brick) list \<Rightarrow> error + lp_problem" where
  "build nx ny bs ps =
     bind_result (objective_cell nx ny bs (LpProblem ''Bricks'' LpMinimize)) (\<lambda>m.
     bind_result (occupancy_cell nx ny bs m) (\<lambda>m.
     bind_result (placement_cell nx ny bs m) (\<lambda>m.
     bind_result (boundary_cell nx ny bs m) (\<lambda>m.
     cohesion_cell nx ny bs ps m))))"

subsection \<open>Assignments and feasibility\<close>

text \<open>
  The solver is external. What the properties below use of it is the meaning of the
  program it is given: an assignment gives every variable an integer; it is feasible when
  every variable is within its bounds 0 and 1 and every constraint holds.
\<close>

definition eval :: "(var \<Rightarrow> int) \<Rightarrow> lin_expr \<Rightarrow> int" where
  "eval a e = (\<Sum>(c, k) \<leftarrow> e. c * a k)"

definition satisfies :: "(var \<Rightarrow> int) \<Rightarrow> constraint \<Rightarrow> bool" where
  "satisfies a c =
     (case rel c of LE \<Rightarrow> eval a (lhs c) \<le> rhs c | EQ \<Rightarrow> eval a (lhs c) = rhs c)"

definition binary :: "var list \<Rightarrow> (var \<Rightarrow> int) \<Rightarrow> bool" where
  "binary ks a = list_all (\<lambda>k. a k = 0 \<or> a k = 1) ks"

definition feasible :: "var list \<Rightarrow> lp_problem \<Rightarrow> (var \<Rightarrow> int) \<Rightarrow> bool" where
  "feasible ks m a = (binary ks a \<and> list_all (satisfies a) (constraints m))"

subsection \<open>Cell 12: the display\<close>

text \<open>\<open>'{}'.format(n)\<close> for a non-negative integer: its decimal digits.\<close>

fun str_nat :: "nat \<Rightarrow> string" where
  "str_nat n =
     (if n < 10 then [char_of (48 + n)] else str_nat (n div 10) @ [char_of (48 + n mod 10)])"

declare str_nat.simps [simp del]

text \<open>
  \<^verbatim>\<open>for y in range(YSIZE):
    row = ""
    for x in range(XSIZE):
        for b in bricks:
            for rb in range(XSIZE):
                val = value(v[x][y][b][rb])
                if val == 1:
                    row += '{}[{}]'.format(b, rb)
        row += '\t'
    print(row)\<close>

  The result is the list of the printed lines.
\<close>

definition cell_loop ::
  "nat \<Rightarrow> nat \<Rightarrow> brick list \<Rightarrow> (var \<Rightarrow> int) \<Rightarrow> nat \<Rightarrow> nat \<Rightarrow> string \<Rightarrow> error + string" where
  "cell_loop nx ny bs a x y row =
     fold_result
       (\<lambda>row (b, rb).
          bind_result (v_get nx ny bs x y b rb) (\<lambda>k.
          Inr (if a k = 1 then row @ b @ ''['' @ str_nat rb @ '']'' else row)))
       row [(b, rb). b \<leftarrow> bs, rb \<leftarrow> [0..<nx]]"

definition row_loop ::
  "nat \<Rightarrow> nat \<Rightarrow> brick list \<Rightarrow> (var \<Rightarrow> int) \<Rightarrow> nat \<Rightarrow> error + string" where
  "row_loop nx ny bs a y =
     fold_result
       (\<lambda>row x. bind_result (cell_loop nx ny bs a x y row) (\<lambda>row. Inr (row @ [CHR 0x09])))
       [] [0..<nx]"

definition display :: "nat \<Rightarrow> nat \<Rightarrow> brick list \<Rightarrow> (var \<Rightarrow> int) \<Rightarrow> error + string list" where
  "display nx ny bs a = traverse (row_loop nx ny bs a) [0..<ny]"

subsection \<open>Cells 1, 2 and 10: the notebook's data\<close>

definition bricks :: "brick list" where
  "bricks = [''a1'', ''a2'', ''a3'', ''b1'', ''b2'', ''c1'', ''c2'', ''c3'', ''c4'',
             ''d1'', ''d2'', ''e1'']"

definition XSIZE :: nat where
  "XSIZE = 4"

definition YSIZE :: nat where
  "YSIZE = 3"

definition pairs :: "(brick \<times> brick) list" where
  "pairs = [(''a1'', ''a2''), (''a1'', ''a3''), (''a2'', ''a3''),
            (''b1'', ''b2''),
            (''c1'', ''c2''), (''c1'', ''c3''), (''c2'', ''c3''), (''c1'', ''c4''),
            (''c2'', ''c4''), (''c3'', ''c4''),
            (''d1'', ''d2'')]"

subsection \<open>The built program in closed form\<close>

text \<open>
  What the cells compute when no subscript raises, written as plain lists. The lemmas
  \<open>objective_cell_ok\<close> to \<open>build_eq\<close> below prove that the cells return exactly
  these.
\<close>

definition objective_terms :: "nat \<Rightarrow> nat \<Rightarrow> brick list \<Rightarrow> lin_expr" where
  "objective_terms nx ny bs =
     map (\<lambda>((x, y), b, rb). (10 * \<bar>int rb - int x\<bar>, (x, y, b, rb)))
       [((x, y), b, rb). (x, y) \<leftarrow> positions nx ny, b \<leftarrow> bs, rb \<leftarrow> [0..<nx]]"

definition occupancy_constraints :: "nat \<Rightarrow> nat \<Rightarrow> brick list \<Rightarrow> constraint list" where
  "occupancy_constraints nx ny bs =
     map (\<lambda>(x, y).
            \<lparr>lhs = map (\<lambda>(b, rb). (1, (x, y, b, rb))) [(b, rb). b \<leftarrow> bs, rb \<leftarrow> [0..<nx]],
             rel = LE, rhs = 1\<rparr>)
       (positions nx ny)"

definition placement_constraints :: "nat \<Rightarrow> nat \<Rightarrow> brick list \<Rightarrow> constraint list" where
  "placement_constraints nx ny bs =
     map (\<lambda>b.
            \<lparr>lhs = map (\<lambda>((x, y), rb). (1, (x, y, b, rb)))
                     [((x, y), rb). (x, y) \<leftarrow> positions nx ny, rb \<leftarrow> [0..<nx]],
             rel = EQ, rhs = 1\<rparr>)
       bs"

definition boundary_constraints :: "nat \<Rightarrow> nat \<Rightarrow> brick list \<Rightarrow> constraint list" where
  "boundary_constraints nx ny bs =
     map (\<lambda>(x, rb).
            \<lparr>lhs = map (\<lambda>(y, b). (1, (x, y, b, rb))) [(y, b). y \<leftarrow> [0..<ny], b \<leftarrow> bs],
             rel = EQ, rhs = 0\<rparr>)
       [(x, rb). x \<leftarrow> [0..<nx], rb \<leftarrow> [0..<nx], x > rb]"

definition cohesion_constraints :: "nat \<Rightarrow> nat \<Rightarrow> (brick \<times> brick) list \<Rightarrow> constraint list" where
  "cohesion_constraints nx ny ps =
     map (\<lambda>((b1, b2), rb).
            \<lparr>lhs = map (\<lambda>(x, y). (1, (x, y, b1, rb))) (positions nx ny) @
                    map (\<lambda>(x, y). (- 1, (x, y, b2, rb))) (positions nx ny),
             rel = EQ, rhs = 0\<rparr>)
       [((b1, b2), rb). (b1, b2) \<leftarrow> ps, rb \<leftarrow> [0..<nx]]"

text \<open>The pairs loop raises exactly when the grid is not empty and a pair names an unknown brick.\<close>

definition pairs_known :: "nat \<Rightarrow> nat \<Rightarrow> brick list \<Rightarrow> (brick \<times> brick) list \<Rightarrow> bool" where
  "pairs_known nx ny bs ps =
     (nx = 0 \<or> ny = 0 \<or> list_all (\<lambda>(b1, b2). b1 \<in> set bs \<and> b2 \<in> set bs) ps)"

definition built :: "nat \<Rightarrow> nat \<Rightarrow> brick list \<Rightarrow> (brick \<times> brick) list \<Rightarrow> lp_problem" where
  "built nx ny bs ps =
     \<lparr>name = ''Bricks'', sense = LpMinimize, objective = objective_terms nx ny bs,
      constraints = occupancy_constraints nx ny bs @ placement_constraints nx ny bs @
        boundary_constraints nx ny bs @ cohesion_constraints nx ny ps\<rparr>"

subsection \<open>Notions the properties are stated with\<close>

text \<open>
  Cell \<open>c\<close> holds brick \<open>b\<close> under an assignment when some variable
  \<open>v[x][y][b][rb]\<close> of that cell and brick is 1; \<open>cell_of\<close> is the first cell of
  \<open>positions\<close> that holds the brick, if any.
\<close>

definition holds_brick :: "(var \<Rightarrow> int) \<Rightarrow> nat \<Rightarrow> brick \<Rightarrow> nat \<times> nat \<Rightarrow> bool" where
  "holds_brick a nx b c = list_ex (\<lambda>rb. a (fst c, snd c, b, rb) = 1) [0..<nx]"

definition cell_of :: "(var \<Rightarrow> int) \<Rightarrow> nat \<Rightarrow> nat \<Rightarrow> brick \<Rightarrow> (nat \<times> nat) option" where
  "cell_of a nx ny b = find (holds_brick a nx b) (positions nx ny)"

text \<open>A small solved instance: two bricks side by side in a 2 x 1 box.\<close>

definition tiny :: "var \<Rightarrow> int" where
  "tiny k = (if k = (0, 0, ''a'', 0) \<or> k = (1, 0, ''b'', 1) then 1 else 0)"

text \<open>
  The number of variables of brick \<open>b\<close> and anchor \<open>rb\<close> that are 1, summed over the
  cells: \<open>sum over x,y of v[x][y][b][rb]\<close>. The anchor column of a brick is the first
  \<open>rb\<close> where this sum is 1, if any.
\<close>

definition column_count :: "(var \<Rightarrow> int) \<Rightarrow> nat \<Rightarrow> nat \<Rightarrow> brick \<Rightarrow> nat \<Rightarrow> int" where
  "column_count a nx ny b rb = (\<Sum>(x, y) \<leftarrow> positions nx ny. a (x, y, b, rb))"

definition anchor :: "(var \<Rightarrow> int) \<Rightarrow> nat \<Rightarrow> nat \<Rightarrow> brick \<Rightarrow> nat option" where
  "anchor a nx ny b = find (\<lambda>rb. column_count a nx ny b rb = 1) [0..<nx]"

text \<open>A second small solved instance: a same-colour pair, both anchored at column 1.\<close>

definition pair_solved :: "var \<Rightarrow> int" where
  "pair_solved k = (if k = (0, 0, ''a1'', 1) \<or> k = (1, 0, ''a2'', 1) then 1 else 0)"

text \<open>
  The display in closed form: the text the two inner loops add for one cell (every
  variable of the cell that is 1, in loop order), and one printed line.
\<close>

definition cell_text :: "nat \<Rightarrow> brick list \<Rightarrow> (var \<Rightarrow> int) \<Rightarrow> nat \<Rightarrow> nat \<Rightarrow> string" where
  "cell_text nx bs a x y =
     concat (map (\<lambda>(b, rb). if a (x, y, b, rb) = 1 then b @ ''['' @ str_nat rb @ '']'' else [])
       [(b, rb). b \<leftarrow> bs, rb \<leftarrow> [0..<nx]])"

definition row_text :: "nat \<Rightarrow> brick list \<Rightarrow> (var \<Rightarrow> int) \<Rightarrow> nat \<Rightarrow> string" where
  "row_text nx bs a y = concat (map (\<lambda>x. cell_text nx bs a x y @ [CHR 0x09]) [0..<nx])"

text \<open>
  The grid as the specification words it: a cell shows the variable that is 1 there
  as \<open><brick>[<rb>]\<close> or is blank; \<open>tab_separated_grid\<close> joins the cells of a line
  with tabs between them, \<open>tab_terminated_grid\<close> puts a tab after every cell.
\<close>

definition spec_cell :: "nat \<Rightarrow> brick list \<Rightarrow> (var \<Rightarrow> int) \<Rightarrow> nat \<Rightarrow> nat \<Rightarrow> string" where
  "spec_cell nx bs a x y =
     (case find (\<lambda>(b, rb). a (x, y, b, rb) = 1) (List.product bs [0..<nx]) of
        None \<Rightarrow> []
      | Some (b, rb) \<Rightarrow> b @ ''['' @ str_nat rb @ '']'')"

fun join_with :: "string \<Rightarrow> string list \<Rightarrow> string" where
  "join_with sep [] = []"
| "join_with sep [s] = s"
| "join_with sep (s # t # ts) = s @ sep @ join_with sep (t # ts)"

definition tab_separated_grid :: "nat \<Rightarrow> nat \<Rightarrow> brick list \<Rightarrow> (var \<Rightarrow> int) \<Rightarrow> string list" where
  "tab_separated_grid nx ny bs a =
     map (\<lambda>y. join_with [CHR 0x09] (map (\<lambda>x. spec_cell nx bs a x y) [0..<nx])) [0..<ny]"

definition tab_terminated_grid :: "nat \<Rightarrow> nat \<Rightarrow> brick list \<Rightarrow> (var \<Rightarrow> int) \<Rightarrow> string list" where
  "tab_terminated_grid nx ny bs a =
     map (\<lambda>y. concat (map (\<lambda>x. spec_cell nx bs a x y @ [CHR 0x09]) [0..<nx])) [0..<ny]"

text \<open>An assignment that sets every variable to 1 (not a feasible one for two bricks).\<close>

definition all_ones :: "var \<Rightarrow> int" where
  "all_ones k = 1"

text \<open>
  The colour of a brick is the letter prefix of its name; \<open>same_colour_pairs\<close> lists
  every unordered pair of different positions of a brick list whose bricks share a
  colour, each pair once, in list order.
\<close>

definition colour :: "brick \<Rightarrow> string" where
  "colour b = takeWhile (\<lambda>c. c \<notin> set ''0123456789'') b"

fun all_pairs :: "'a list \<Rightarrow> ('a \<times> 'a) list" where
  "all_pairs [] = []"
| "all_pairs (x # xs) = map (Pair x) xs @ all_pairs xs"

definition same_colour_pairs :: "brick list \<Rightarrow> (brick \<times> brick) list" where
  "same_colour_pairs bs = filter (\<lambda>(b1, b2). colour b1 = colour b2) (all_pairs bs)"

text \<open>The solution the notebook prints for its data (the output of cell 12).\<close>

definition notebook_solution :: "var \<Rightarrow> int" where
  "notebook_solution k =
     (if k \<in> set [(0, 0, ''b2'', 0), (1, 0, ''a3'', 1), (2, 0, ''d1'', 2), (3, 0, ''c1'', 3),
                   (0, 1, ''e1'', 0), (1, 1, ''a1'', 1), (2, 1, ''d2'', 2), (3, 1, ''c2'', 3),
                   (0, 2, ''b1'', 0), (1, 2, ''a2'', 1), (2, 2, ''c3'', 3), (3, 2, ''c4'', 3)]
      then 1 else 0)"

section \<open>Properties\<close>

subsection \<open>The penalties\<close>

lemma inner_penalty_loop:
  "foldl (\<lambda>d rb. d((x, rb) \<mapsto> f rb)) d [0..<n] =
     (\<lambda>k. if fst k = x \<and> snd k < n then Some (f (snd k)) else d k)"
  by (induction n) (auto simp: fun_eq_iff less_Suc_eq)

lemma outer_penalty_loop:
  "foldl (\<lambda>d x. foldl (\<lambda>d rb. d((x, rb) \<mapsto> f x rb)) d [0..<n]) d0 [0..<j] =
     (\<lambda>k. if fst k < j \<and> snd k < n then Some (f (fst k) (snd k)) else d0 k)"
  unfolding inner_penalty_loop
  by (induction j) (auto simp: fun_eq_iff less_Suc_eq)

lemma penalties_eq:
  "penalties nx (x, rb) =
     (if x < nx \<and> rb < nx then Some (10 * \<bar>int rb - int x\<bar>) else None)"
  unfolding penalties_def by (simp add: outer_penalty_loop)

text \<open>
  C6. For all \<open>x\<close> and \<open>rb\<close> in \<open>0..XSIZE-1\<close> the penalties dict holds
  \<open>10 * |rb - x|\<close> at \<open>(x, rb)\<close>, so the subscript \<open>penalties[(x, rb)]\<close> returns it; the
  matrix is symmetric and zero on the diagonal.
\<close>

theorem penalties_value_symmetric_diagonal:
  assumes "x < nx" and "rb < nx"
  shows "lookup (penalties nx) (x, rb) = Inr (10 * \<bar>int rb - int x\<bar>)
    \<and> lookup (penalties nx) (x, rb) = lookup (penalties nx) (rb, x)
    \<and> lookup (penalties nx) (x, x) = Inr 0"
  using assms by (simp add: lookup_def penalties_eq abs_minus_commute)

theorem penalties_value_symmetric_diagonal_witness:
  "(1::nat) < 4 \<and> (3::nat) < 4
    \<and> lookup (penalties 4) (1, 3) = Inr 20
    \<and> lookup (penalties 4) (3, 1) = Inr 20
    \<and> lookup (penalties 4) (1, 1) = Inr 0"
  using penalties_value_symmetric_diagonal [of 1 4 3]
    penalties_value_symmetric_diagonal [of 3 4 1] by simp

subsection \<open>The cells never raise, except the pairs loop on an unknown brick\<close>

lemma bind_result_Inr [simp]: "bind_result (Inr x) f = f x"
  by (simp add: bind_result_def)

lemma bind_result_Inl [simp]: "bind_result (Inl e) f = Inl e"
  by (simp add: bind_result_def)

lemma error_is_KeyError: "(e::error) = KeyError"
  by (cases e) simp

lemma traverse_ok:
  "(\<And>x. x \<in> set xs \<Longrightarrow> f x = Inr (g x)) \<Longrightarrow> traverse f xs = Inr (map g xs)"
  by (induction xs) simp_all

lemma traverse_fail:
  "x \<in> set xs \<Longrightarrow> f x = Inl KeyError \<Longrightarrow> traverse f xs = Inl KeyError"
  by (induction xs) (auto simp: error_is_KeyError split: sum.splits)

lemma fold_result_ok:
  "(\<And>s x. x \<in> set xs \<Longrightarrow> f s x = Inr (g s x)) \<Longrightarrow> fold_result f s xs = Inr (foldl g s xs)"
  by (induction xs arbitrary: s) simp_all

lemma fold_result_fail:
  "x \<in> set xs \<Longrightarrow> (\<And>s. f s x = Inl KeyError) \<Longrightarrow> fold_result f s xs = Inl KeyError"
  by (induction xs arbitrary: s) (auto simp: error_is_KeyError split: sum.splits)

lemma foldl_add_constraint:
  "foldl (\<lambda>m i. add_constraint m (c i)) m is = m\<lparr>constraints := constraints m @ map c is\<rparr>"
  by (induction "is" arbitrary: m) (simp_all add: add_constraint_def)

lemma add_constraints_ok:
  assumes "\<And>i. i \<in> set is \<Longrightarrow> mk i = Inr (c i)"
  shows "add_constraints mk m is = Inr (m\<lparr>constraints := constraints m @ map c is\<rparr>)"
proof -
  have "add_constraints mk m is = Inr (foldl (\<lambda>m i. add_constraint m (c i)) m is)"
    unfolding add_constraints_def
    by (rule fold_result_ok) (simp add: assms bind_result_def)
  then show ?thesis by (simp add: foldl_add_constraint)
qed

lemma add_constraints_fail:
  assumes "i \<in> set is" and "mk i = Inl KeyError"
  shows "add_constraints mk m is = Inl KeyError"
  unfolding add_constraints_def
  by (rule fold_result_fail [OF assms(1)]) (simp add: assms(2) bind_result_def)

lemma set_positions: "set (positions nx ny) = {(x, y). x < nx \<and> y < ny}"
  by (auto simp: positions_def)

lemma v_get_ok:
  "x < nx \<Longrightarrow> y < ny \<Longrightarrow> b \<in> set bs \<Longrightarrow> rb < nx \<Longrightarrow> v_get nx ny bs x y b rb = Inr (x, y, b, rb)"
  by (simp add: v_get_def)

lemma v_get_unknown:
  "b \<notin> set bs \<Longrightarrow> v_get nx ny bs x y b rb = Inl KeyError"
  by (simp add: v_get_def)

lemma objective_cell_ok:
  "objective_cell nx ny bs m = Inr (m\<lparr>objective := objective_terms nx ny bs\<rparr>)"
proof -
  have "traverse
          (\<lambda>((x, y), b, rb).
             bind_result (lookup (penalties nx) (x, rb)) (\<lambda>p.
             bind_result (v_get nx ny bs x y b rb) (\<lambda>k. Inr (p, k))))
          [((x, y), b, rb). (x, y) \<leftarrow> positions nx ny, b \<leftarrow> bs, rb \<leftarrow> [0..<nx]]
        = Inr (objective_terms nx ny bs)"
    unfolding objective_terms_def
    by (rule traverse_ok) (auto simp: set_positions lookup_def penalties_eq v_get_ok)
  then show ?thesis
    by (simp add: objective_cell_def)
qed

lemma occupancy_cell_ok:
  "occupancy_cell nx ny bs m =
     Inr (m\<lparr>constraints := constraints m @ occupancy_constraints nx ny bs\<rparr>)"
proof -
  have inner: "traverse (\<lambda>(b, rb). bind_result (v_get nx ny bs x y b rb) (\<lambda>k. Inr (1, k)))
               [(b, rb). b \<leftarrow> bs, rb \<leftarrow> [0..<nx]]
        = Inr (map (\<lambda>(b, rb). (1, (x, y, b, rb))) [(b, rb). b \<leftarrow> bs, rb \<leftarrow> [0..<nx]])"
    if "x < nx" "y < ny" for x y
    by (rule traverse_ok) (use that in \<open>auto simp: v_get_ok\<close>)
  show ?thesis
    unfolding occupancy_cell_def occupancy_constraints_def
    apply (rule add_constraints_ok)
    subgoal for i
      by (cases i) (simp add: set_positions inner)
    done
qed

lemma placement_cell_ok:
  "placement_cell nx ny bs m =
     Inr (m\<lparr>constraints := constraints m @ placement_constraints nx ny bs\<rparr>)"
proof -
  have inner: "traverse (\<lambda>((x, y), rb). bind_result (v_get nx ny bs x y b rb) (\<lambda>k. Inr (1, k)))
               [((x, y), rb). (x, y) \<leftarrow> positions nx ny, rb \<leftarrow> [0..<nx]]
        = Inr (map (\<lambda>((x, y), rb). (1, (x, y, b, rb)))
               [((x, y), rb). (x, y) \<leftarrow> positions nx ny, rb \<leftarrow> [0..<nx]])"
    if "b \<in> set bs" for b
    by (rule traverse_ok) (use that in \<open>auto simp: set_positions v_get_ok\<close>)
  show ?thesis
    unfolding placement_cell_def placement_constraints_def
    by (rule add_constraints_ok) (simp add: inner)
qed

lemma boundary_cell_ok:
  "boundary_cell nx ny bs m =
     Inr (m\<lparr>constraints := constraints m @ boundary_constraints nx ny bs\<rparr>)"
proof -
  have inner: "traverse (\<lambda>(y, b). bind_result (v_get nx ny bs x y b rb) (\<lambda>k. Inr (1, k)))
               [(y, b). y \<leftarrow> [0..<ny], b \<leftarrow> bs]
        = Inr (map (\<lambda>(y, b). (1, (x, y, b, rb))) [(y, b). y \<leftarrow> [0..<ny], b \<leftarrow> bs])"
    if "x < nx" "rb < nx" for x rb
    by (rule traverse_ok) (use that in \<open>auto simp: v_get_ok\<close>)
  show ?thesis
    unfolding boundary_cell_def boundary_constraints_def
    apply (rule add_constraints_ok)
    subgoal for i
      by (cases i) (auto simp: inner)
    done
qed

lemma traverse_pair_side:
  assumes "positions nx ny = [] \<or> b \<in> set bs" and "rb < nx"
  shows "traverse (\<lambda>(x, y). bind_result (v_get nx ny bs x y b rb) (\<lambda>k. Inr (c, k)))
           (positions nx ny)
         = Inr (map (\<lambda>(x, y). (c, (x, y, b, rb))) (positions nx ny))"
proof (rule traverse_ok)
  fix i assume i: "i \<in> set (positions nx ny)"
  with assms have "b \<in> set bs" by auto
  moreover obtain x y where "i = (x, y)" by (cases i)
  ultimately show "(case i of (x, y) \<Rightarrow> bind_result (v_get nx ny bs x y b rb) (\<lambda>k. Inr (c, k)))
      = Inr (case i of (x, y) \<Rightarrow> (c, (x, y, b, rb)))"
    using i assms(2) by (simp add: set_positions v_get_ok)
qed

lemma traverse_pair_side_fail:
  assumes "0 < nx" "0 < ny" "b \<notin> set bs"
  shows "traverse (\<lambda>(x, y). bind_result (v_get nx ny bs x y b rb) (\<lambda>k. Inr (c, k)))
           (positions nx ny) = Inl KeyError"
proof (rule traverse_fail [of "(0, 0)"])
  show "(0, 0) \<in> set (positions nx ny)"
    using assms by (simp add: set_positions)
  show "(case (0, 0) of (x, y) \<Rightarrow> bind_result (v_get nx ny bs x y b rb) (\<lambda>k. Inr (c, k)))
      = Inl KeyError"
    using assms by (simp add: v_get_unknown)
qed

lemma positions_empty: "positions nx ny = [] \<longleftrightarrow> nx = 0 \<or> ny = 0"
  using set_positions [of nx ny] by (auto simp: set_empty [symmetric] simp del: set_empty)

lemma cohesion_cell_ok:
  assumes "pairs_known nx ny bs ps"
  shows "cohesion_cell nx ny bs ps m =
     Inr (m\<lparr>constraints := constraints m @ cohesion_constraints nx ny ps\<rparr>)"
  unfolding cohesion_cell_def cohesion_constraints_def
proof (rule add_constraints_ok)
  fix i assume "i \<in> set [((b1, b2), rb). (b1, b2) \<leftarrow> ps, rb \<leftarrow> [0..<nx]]"
  then obtain b1 b2 rb where i: "i = ((b1, b2), rb)" "(b1, b2) \<in> set ps" "rb < nx"
    by auto
  with assms have "positions nx ny = [] \<or> b1 \<in> set bs" "positions nx ny = [] \<or> b2 \<in> set bs"
    by (auto simp: pairs_known_def positions_empty list_all_iff)
  then show "(case i of
          (x, xa) \<Rightarrow>
            (case x of
             (b1, b2) \<Rightarrow>
               \<lambda>rb. bind_result
                      (traverse (\<lambda>(x, y). bind_result (v_get nx ny bs x y b1 rb) (\<lambda>k. Inr (1, k)))
                        (positions nx ny))
                      (\<lambda>ts1.
                          bind_result
                           (traverse
                             (\<lambda>(x, y). bind_result (v_get nx ny bs x y b2 rb) (\<lambda>k. Inr (- 1, k)))
                             (positions nx ny))
                           (\<lambda>ts2. Inr \<lparr>lhs = ts1 @ ts2, rel = EQ, rhs = 0\<rparr>)))
             xa) =
         Inr (case i of
              (x, xa) \<Rightarrow>
                (case x of
                 (b1, b2) \<Rightarrow>
                   \<lambda>rb. \<lparr>lhs =
                            map (\<lambda>(x, y). (1, x, y, b1, rb)) (positions nx ny) @
                            map (\<lambda>(x, y). (- 1, x, y, b2, rb)) (positions nx ny),
                            rel = EQ, rhs = 0\<rparr>)
                 xa)"
    using i by (simp add: traverse_pair_side)
qed

lemma cohesion_cell_fail:
  assumes "\<not> pairs_known nx ny bs ps"
  shows "cohesion_cell nx ny bs ps m = Inl KeyError"
proof -
  from assms obtain b1 b2 where p: "(b1, b2) \<in> set ps" "b1 \<notin> set bs \<or> b2 \<notin> set bs"
    and pos: "0 < nx" "0 < ny"
    by (auto simp: pairs_known_def list_all_iff)
  have mem: "((b1, b2), 0) \<in> set [((b1, b2), rb). (b1, b2) \<leftarrow> ps, rb \<leftarrow> [0..<nx]]"
    using p(1) pos(1) by force
  show ?thesis
    unfolding cohesion_cell_def
  proof (rule add_constraints_fail [OF mem])
    show "(case ((b1, b2), 0) of
          (x, xa) \<Rightarrow>
            (case x of
             (b1, b2) \<Rightarrow>
               \<lambda>rb. bind_result
                      (traverse (\<lambda>(x, y). bind_result (v_get nx ny bs x y b1 rb) (\<lambda>k. Inr (1, k)))
                        (positions nx ny))
                      (\<lambda>ts1.
                          bind_result
                           (traverse
                             (\<lambda>(x, y). bind_result (v_get nx ny bs x y b2 rb) (\<lambda>k. Inr (- 1, k)))
                             (positions nx ny))
                           (\<lambda>ts2. Inr \<lparr>lhs = ts1 @ ts2, rel = EQ, rhs = 0\<rparr>)))
             xa) = Inl KeyError"
    proof (cases "b1 \<in> set bs")
      case True
      with p(2) have "b2 \<notin> set bs" by simp
      with True pos show ?thesis
        by (simp add: traverse_pair_side traverse_pair_side_fail)
    next
      case False
      with pos show ?thesis
        by (simp add: traverse_pair_side_fail)
    qed
  qed
qed

lemma build_eq:
  "build nx ny bs ps = (if pairs_known nx ny bs ps then Inr (built nx ny bs ps) else Inl KeyError)"
  by (simp add: build_def objective_cell_ok occupancy_cell_ok placement_cell_ok
      boundary_cell_ok cohesion_cell_ok cohesion_cell_fail LpProblem_def built_def)

subsection \<open>Sums of non-negative integers over lists\<close>

lemma sum_list_member_le:
  fixes f :: "'a \<Rightarrow> int"
  assumes "\<And>j. j \<in> set is \<Longrightarrow> 0 \<le> f j" and "i \<in> set is"
  shows "f i \<le> sum_list (map f is)"
  using assms
proof (induction "is")
  case Nil
  then show ?case by simp
next
  case (Cons j js)
  have "0 \<le> sum_list (map f js)"
    by (rule sum_list_nonneg) (use Cons.prems in auto)
  moreover have "0 \<le> f j"
    using Cons.prems by simp
  ultimately show ?case
    using Cons by (cases "i = j") (auto simp: add_increasing add_increasing2)
qed

lemma sum_list_two_members_le:
  fixes f :: "'a \<Rightarrow> int"
  assumes nonneg: "\<And>j. j \<in> set is \<Longrightarrow> 0 \<le> f j"
    and "i \<in> set is" and "j \<in> set (remove1 i is)"
  shows "f i + f j \<le> sum_list (map f is)"
proof -
  have "sum_list (map f is) = f i + sum_list (map f (remove1 i is))"
    using assms(2) by (rule sum_list_map_remove1)
  moreover have "f j \<le> sum_list (map f (remove1 i is))"
    by (rule sum_list_member_le) (use assms in \<open>auto dest: notin_set_remove1\<close>)
  ultimately show ?thesis by simp
qed

lemma sum_list_pos_member:
  fixes f :: "'a \<Rightarrow> int"
  assumes "0 < sum_list (map f is)"
  shows "\<exists>i\<in>set is. 0 < f i"
proof (rule ccontr)
  assume "\<not> (\<exists>i\<in>set is. 0 < f i)"
  then have "sum_list (map f is) \<le> 0"
    by (intro sum_list_nonpos) (auto simp: not_less)
  with assms show False by simp
qed

lemma duplicate_remove1:
  "\<not> distinct xs \<Longrightarrow> \<exists>x. x \<in> set xs \<and> x \<in> set (remove1 x xs)"
proof (induction xs)
  case Nil
  then show ?case by simp
next
  case (Cons y ys)
  show ?case
  proof (cases "y \<in> set ys")
    case True
    then show ?thesis by (intro exI [of _ y]) simp
  next
    case False
    with Cons obtain x where "x \<in> set ys" "x \<in> set (remove1 x ys)" by auto
    with False show ?thesis by (intro exI [of _ x]) auto
  qed
qed

lemma sum_list_swap_nested:
  fixes f :: "'a \<Rightarrow> 'b \<Rightarrow> int"
  shows "(\<Sum>x\<leftarrow>xs. \<Sum>y\<leftarrow>ys. f x y) = (\<Sum>y\<leftarrow>ys. \<Sum>x\<leftarrow>xs. f x y)"
  by (induction xs) (simp_all add: sum_list_addf)

lemma eval_map:
  "eval a (map f is) = (\<Sum>i\<leftarrow>is. fst (f i) * a (snd (f i)))"
  by (simp add: eval_def comp_def case_prod_unfold)

lemma sum_list_neg:
  fixes f :: "'a \<Rightarrow> int"
  shows "(\<Sum>i\<leftarrow>is. - f i) = - (\<Sum>i\<leftarrow>is. f i)"
  by (induction "is") simp_all

lemma eval_append: "eval a (e1 @ e2) = eval a e1 + eval a e2"
  by (simp add: eval_def)

subsection \<open>What a feasible assignment of the built program satisfies\<close>

lemma build_Inr:
  "build nx ny bs ps = Inr m \<Longrightarrow> m = built nx ny bs ps \<and> pairs_known nx ny bs ps"
  by (simp add: build_eq split: if_splits)

lemma positions_product: "positions nx ny = List.product [0..<nx] [0..<ny]"
  by (simp add: positions_def product_concat_map)

lemma set_dict_keys [simp]: "set (dict_keys xs) = set xs"
  by (simp add: dict_keys_def)

lemma distinct_dict_keys [simp]: "distinct (dict_keys xs)"
  by (simp add: dict_keys_def)

lemma dict_keys_distinct: "distinct xs \<Longrightarrow> dict_keys xs = xs"
  by (simp add: dict_keys_def distinct_remdups_id)

lemma length_dict_keys: "length (dict_keys xs) = card (set xs)"
  using distinct_card [of "dict_keys xs"] by simp

lemma v_keys:
  "v nx ny bs =
     [(x, y, b, rb). x \<leftarrow> [0..<nx], y \<leftarrow> [0..<ny], b \<leftarrow> dict_keys bs, rb \<leftarrow> [0..<nx]]"
  by (simp add: v_def v_items_def LpVariable_dicts_def dict_keys_distinct map_concat comp_def)

lemma set_v:
  "set (v nx ny bs) = {(x, y, b, rb). x < nx \<and> y < ny \<and> b \<in> set bs \<and> rb < nx}"
  by (force simp: v_keys)

lemma feasible_binary:
  assumes "feasible (v nx ny bs) m a" and "x < nx" "y < ny" "b \<in> set bs" "rb < nx"
  shows "a (x, y, b, rb) = 0 \<or> a (x, y, b, rb) = 1"
  using assms by (auto simp: feasible_def binary_def list_all_iff set_v)

lemma feasible_occupancy:
  assumes "feasible ks (built nx ny bs ps) a" and "x < nx" "y < ny"
  shows "(\<Sum>i\<leftarrow>List.product bs [0..<nx]. a (x, y, fst i, snd i)) \<le> 1"
proof -
  have "\<lparr>lhs = map (\<lambda>(b, rb). (1, (x, y, b, rb))) [(b, rb). b \<leftarrow> bs, rb \<leftarrow> [0..<nx]],
         rel = LE, rhs = 1\<rparr> \<in> set (constraints (built nx ny bs ps))"
    using assms(2,3) by (force simp: built_def occupancy_constraints_def set_positions)
  with assms(1) have "satisfies a \<lparr>lhs = map (\<lambda>(b, rb). (1, (x, y, b, rb)))
      [(b, rb). b \<leftarrow> bs, rb \<leftarrow> [0..<nx]], rel = LE, rhs = 1\<rparr>"
    by (simp add: feasible_def list_all_iff)
  then show ?thesis
    by (simp add: satisfies_def eval_map case_prod_unfold product_concat_map)
qed

lemma feasible_placement:
  assumes "feasible ks (built nx ny bs ps) a" and "b \<in> set bs"
  shows "(\<Sum>i\<leftarrow>List.product (positions nx ny) [0..<nx]. a (fst (fst i), snd (fst i), b, snd i)) = 1"
proof -
  have "\<lparr>lhs = map (\<lambda>((x, y), rb). (1, (x, y, b, rb)))
                     [((x, y), rb). (x, y) \<leftarrow> positions nx ny, rb \<leftarrow> [0..<nx]],
         rel = EQ, rhs = 1\<rparr> \<in> set (constraints (built nx ny bs ps))"
    using assms(2) by (force simp: built_def placement_constraints_def)
  with assms(1) have "satisfies a \<lparr>lhs = map (\<lambda>((x, y), rb). (1, (x, y, b, rb)))
                     [((x, y), rb). (x, y) \<leftarrow> positions nx ny, rb \<leftarrow> [0..<nx]],
         rel = EQ, rhs = 1\<rparr>"
    by (simp add: feasible_def list_all_iff)
  then show ?thesis
    by (simp add: satisfies_def eval_map case_prod_unfold product_concat_map)
qed

lemma feasible_boundary:
  assumes "feasible ks (built nx ny bs ps) a" and "rb < x" "x < nx"
  shows "(\<Sum>i\<leftarrow>List.product [0..<ny] bs. a (x, fst i, snd i, rb)) = 0"
proof -
  have "(x, rb) \<in> set [(x, rb). x \<leftarrow> [0..<nx], rb \<leftarrow> [0..<nx], x > rb]"
    using assms(2,3) by auto
  then have "\<lparr>lhs = map (\<lambda>(y, b). (1, (x, y, b, rb))) [(y, b). y \<leftarrow> [0..<ny], b \<leftarrow> bs],
             rel = EQ, rhs = 0\<rparr> \<in> set (constraints (built nx ny bs ps))"
    unfolding built_def boundary_constraints_def by force
  with assms(1) have "satisfies a \<lparr>lhs = map (\<lambda>(y, b). (1, (x, y, b, rb)))
      [(y, b). y \<leftarrow> [0..<ny], b \<leftarrow> bs], rel = EQ, rhs = 0\<rparr>"
    by (simp add: feasible_def list_all_iff)
  then show ?thesis
    by (simp add: satisfies_def eval_map case_prod_unfold product_concat_map)
qed

lemma feasible_cohesion:
  assumes "feasible ks (built nx ny bs ps) a" and "(b1, b2) \<in> set ps" "rb < nx"
  shows "(\<Sum>i\<leftarrow>positions nx ny. a (fst i, snd i, b1, rb)) =
         (\<Sum>i\<leftarrow>positions nx ny. a (fst i, snd i, b2, rb))"
proof -
  have "((b1, b2), rb) \<in> set [((b1, b2), rb). (b1, b2) \<leftarrow> ps, rb \<leftarrow> [0..<nx]]"
    using assms(2,3) by force
  then have "\<lparr>lhs = map (\<lambda>(x, y). (1, (x, y, b1, rb))) (positions nx ny) @
                    map (\<lambda>(x, y). (- 1, (x, y, b2, rb))) (positions nx ny),
             rel = EQ, rhs = 0\<rparr> \<in> set (constraints (built nx ny bs ps))"
    unfolding built_def cohesion_constraints_def by force
  with assms(1) have "satisfies a \<lparr>lhs = map (\<lambda>(x, y). (1, (x, y, b1, rb))) (positions nx ny) @
                    map (\<lambda>(x, y). (- 1, (x, y, b2, rb))) (positions nx ny),
             rel = EQ, rhs = 0\<rparr>"
    by (simp add: feasible_def list_all_iff)
  then show ?thesis
    by (simp add: satisfies_def eval_map eval_append case_prod_unfold sum_list_neg)
qed


lemma sum_list_product:
  fixes f :: "'a \<times> 'b \<Rightarrow> int"
  shows "(\<Sum>i\<leftarrow>List.product xs ys. f i) = (\<Sum>x\<leftarrow>xs. \<Sum>y\<leftarrow>ys. f (x, y))"
  by (induction xs) (simp_all add: comp_def)

lemma placed_once:
  assumes feas: "feasible (v nx ny bs) (built nx ny bs ps) a" and b: "b \<in> set bs"
  shows "\<exists>x y rb. x < nx \<and> y < ny \<and> rb < nx \<and> a (x, y, b, rb) = 1 \<and>
    (\<forall>x' y' rb'. x' < nx \<and> y' < ny \<and> rb' < nx \<and> a (x', y', b, rb') = 1
       \<longrightarrow> x' = x \<and> y' = y \<and> rb' = rb)"
proof -
  define L where "L = List.product (positions nx ny) [0..<nx]"
  define f where "f = (\<lambda>i :: (nat \<times> nat) \<times> nat. a (fst (fst i), snd (fst i), b, snd i))"
  have setL: "i \<in> set L \<longleftrightarrow> fst (fst i) < nx \<and> snd (fst i) < ny \<and> snd i < nx" for i
    by (cases i) (auto simp: L_def set_positions)
  have bin: "f i = 0 \<or> f i = 1" if "i \<in> set L" for i
    using that feasible_binary [OF feas _ _ b] by (simp add: setL f_def)
  have nonneg: "0 \<le> f i" if "i \<in> set L" for i
    using bin [OF that] by force
  have total: "sum_list (map f L) = 1"
    using feasible_placement [OF feas b] by (simp add: L_def f_def)
  then obtain i where i: "i \<in> set L" "0 < f i"
    using sum_list_pos_member [of f L] by auto
  have fi: "f i = 1" using bin [OF i(1)] i(2) by auto
  have uniq: "j = i" if "j \<in> set L" "f j = 1" for j
  proof (rule ccontr)
    assume "j \<noteq> i"
    with that have "j \<in> set (remove1 i L)" by simp
    then have "f i + f j \<le> sum_list (map f L)"
      using nonneg i(1) by (intro sum_list_two_members_le) auto
    with fi that total show False by simp
  qed
  show ?thesis
  proof (intro exI conjI allI impI)
    show "fst (fst i) < nx" "snd (fst i) < ny" "snd i < nx"
      using i(1) by (simp_all add: setL)
    show "a (fst (fst i), snd (fst i), b, snd i) = 1"
      using fi by (simp add: f_def)
  next
    fix x' y' rb'
    assume "x' < nx \<and> y' < ny \<and> rb' < nx \<and> a (x', y', b, rb') = 1"
    then have "((x', y'), rb') = i"
      by (intro uniq) (simp_all add: setL f_def)
    then show "x' = fst (fst i)" "y' = snd (fst i)" "rb' = snd i"
      by auto
  qed
qed

lemma one_per_cell:
  assumes feas: "feasible (v nx ny bs) (built nx ny bs ps) a"
    and "x < nx" "y < ny" "b1 \<in> set bs" "rb1 < nx" "b2 \<in> set bs" "rb2 < nx"
    and "a (x, y, b1, rb1) = 1" "a (x, y, b2, rb2) = 1"
  shows "b1 = b2 \<and> rb1 = rb2"
proof (rule ccontr)
  define L where "L = List.product bs [0..<nx]"
  define f where "f = (\<lambda>i :: brick \<times> nat. a (x, y, fst i, snd i))"
  assume "\<not> (b1 = b2 \<and> rb1 = rb2)"
  then have "(b2, rb2) \<in> set (remove1 (b1, rb1) L)"
    using assms by (auto simp: L_def)
  moreover have "0 \<le> f i" if "i \<in> set L" for i
    using that feasible_binary [OF feas assms(2,3), of "fst i" "snd i"]
    by (force simp: L_def f_def)
  moreover have "(b1, rb1) \<in> set L"
    using assms by (simp add: L_def)
  ultimately have "f (b1, rb1) + f (b2, rb2) \<le> sum_list (map f L)"
    by (intro sum_list_two_members_le) auto
  moreover have "sum_list (map f L) \<le> 1"
    using feasible_occupancy [OF feas assms(2,3)] by (simp add: L_def f_def)
  ultimately show False
    using assms by (simp add: f_def)
qed

lemma feasible_distinct:
  assumes feas: "feasible (v nx ny bs) (built nx ny bs ps) a"
  shows "distinct bs"
proof (rule ccontr)
  assume "\<not> distinct bs"
  then obtain b where b: "b \<in> set bs" "b \<in> set (remove1 b bs)"
    using duplicate_remove1 by blast
  obtain x y rb where p: "x < nx" "y < ny" "rb < nx" "a (x, y, b, rb) = 1"
    using placed_once [OF feas b(1)] by blast
  define g where "g = (\<lambda>c. \<Sum>r\<leftarrow>[0..<nx]. a (x, y, c, r))"
  have inner: "0 \<le> a (x, y, c, r)" if "c \<in> set bs" "r \<in> set [0..<nx]" for c r
    using that feasible_binary [OF feas p(1,2), of c r] by force
  have "a (x, y, b, rb) \<le> g b"
    unfolding g_def using inner [OF b(1)] p(3)
    by (intro sum_list_member_le [of "[0..<nx]" "\<lambda>r. a (x, y, b, r)"]) auto
  then have "1 \<le> g b" using p(4) by simp
  moreover have "0 \<le> g c" if "c \<in> set bs" for c
    unfolding g_def using inner [OF that] by (intro sum_list_nonneg) auto
  then have "g b + g b \<le> sum_list (map g bs)"
    using b by (intro sum_list_two_members_le) auto
  moreover have "sum_list (map g bs) \<le> 1"
    using feasible_occupancy [OF feas p(1,2)] by (simp add: sum_list_product g_def)
  ultimately show False by simp
qed

lemma never_right_of_anchor:
  assumes feas: "feasible (v nx ny bs) (built nx ny bs ps) a"
    and "x < nx" "y < ny" "b \<in> set bs" "rb < nx" and one: "a (x, y, b, rb) = 1"
  shows "x \<le> rb"
proof (rule ccontr)
  assume "\<not> x \<le> rb"
  then have lt: "rb < x" by simp
  define f where "f = (\<lambda>i :: nat \<times> brick. a (x, fst i, snd i, rb))"
  have "0 \<le> f i" if "i \<in> set (List.product [0..<ny] bs)" for i
    using that feasible_binary [OF feas assms(2) _ _ assms(5), of "fst i" "snd i"]
    by (force simp: f_def)
  moreover have "(y, b) \<in> set (List.product [0..<ny] bs)"
    using assms by simp
  ultimately have "f (y, b) \<le> sum_list (map f (List.product [0..<ny] bs))"
    by (intro sum_list_member_le) auto
  moreover have "sum_list (map f (List.product [0..<ny] bs)) = 0"
    using feasible_boundary [OF feas lt assms(2)] by (simp add: f_def)
  ultimately show False using one by (simp add: f_def)
qed

subsection \<open>Bricks and cells\<close>

lemma find_the_only:
  assumes "c \<in> set xs" and "P c" and "\<forall>c'\<in>set xs. P c' \<longrightarrow> c' = c"
  shows "find P xs = Some c"
  using assms(1,3)
proof (induction xs)
  case Nil
  then show ?case by simp
next
  case (Cons y ys)
  show ?case
  proof (cases "P y")
    case True
    with Cons.prems(2) have "y = c" by simp
    with True show ?thesis by simp
  next
    case False
    with assms(2) have "y \<noteq> c" by blast
    with Cons.prems have "c \<in> set ys" "\<forall>c'\<in>set ys. P c' \<longrightarrow> c' = c" by simp_all
    then have "find P ys = Some c" by (rule Cons.IH)
    with False show ?thesis by simp
  qed
qed

lemma holds_brick_iff:
  "holds_brick a nx b c \<longleftrightarrow> (\<exists>rb<nx. a (fst c, snd c, b, rb) = 1)"
  by (auto simp: holds_brick_def list_ex_iff)

lemma cell_of_unique:
  assumes feas: "feasible (v nx ny bs) (built nx ny bs ps) a" and b: "b \<in> set bs"
  shows "\<exists>c. cell_of a nx ny b = Some c \<and> c \<in> set (positions nx ny) \<and>
    holds_brick a nx b c \<and>
    (\<forall>c'\<in>set (positions nx ny). holds_brick a nx b c' \<longrightarrow> c' = c)"
proof -
  obtain x y rb where p: "x < nx" "y < ny" "rb < nx" "a (x, y, b, rb) = 1"
    and u: "\<And>x' y' rb'. x' < nx \<and> y' < ny \<and> rb' < nx \<and> a (x', y', b, rb') = 1
       \<Longrightarrow> x' = x \<and> y' = y \<and> rb' = rb"
    using placed_once [OF feas b] by blast
  have mem: "(x, y) \<in> set (positions nx ny)"
    using p by (simp add: set_positions)
  have here: "holds_brick a nx b (x, y)"
    using p by (auto simp: holds_brick_iff)
  have only: "c' = (x, y)" if "c' \<in> set (positions nx ny)" "holds_brick a nx b c'" for c'
    using that u [of "fst c'" "snd c'"]
    by (auto simp: holds_brick_iff set_positions case_prod_unfold prod_eq_iff)
  have all: "\<forall>c'\<in>set (positions nx ny). holds_brick a nx b c' \<longrightarrow> c' = (x, y)"
    using only by blast
  have "cell_of a nx ny b = Some (x, y)"
    unfolding cell_of_def using mem here all by (rule find_the_only)
  then show ?thesis using mem here all by blast
qed

text \<open>
  C1. In every feasible assignment of the built program, the occupancy and placement
  constraints make the map from a brick to the cell that holds it well defined (each
  brick is held by exactly one cell) and injective, so its image has exactly
  \<open>len(bricks)\<close> cells, and every cell outside the image is empty. The bound
  \<open>len(bricks) \<le> XSIZE * YSIZE\<close> is not needed as a hypothesis: without it there is
  no feasible assignment.
\<close>

theorem bricks_to_cells_bijection:
  assumes "build nx ny bs ps = Inr m" and "feasible (v nx ny bs) m a"
  shows "(\<forall>b\<in>set bs. \<exists>c. cell_of a nx ny b = Some c \<and> c \<in> set (positions nx ny) \<and>
            (\<forall>c'\<in>set (positions nx ny). holds_brick a nx b c' \<longleftrightarrow> c' = c))
    \<and> inj_on (cell_of a nx ny) (set bs)
    \<and> card (cell_of a nx ny ` set bs) = length bs
    \<and> (\<forall>c\<in>set (positions nx ny). Some c \<notin> cell_of a nx ny ` set bs \<longrightarrow>
          (\<forall>b\<in>set bs. \<forall>rb<nx. a (fst c, snd c, b, rb) = 0))"
proof -
  have feas: "feasible (v nx ny bs) (built nx ny bs ps) a"
    using build_Inr [OF assms(1)] assms(2) by simp
  note uniq = cell_of_unique [OF feas]
  have inj: "inj_on (cell_of a nx ny) (set bs)"
  proof (rule inj_onI)
    fix b1 b2
    assume b: "b1 \<in> set bs" "b2 \<in> set bs" and eq: "cell_of a nx ny b1 = cell_of a nx ny b2"
    from uniq [OF b(1)] obtain c where c: "cell_of a nx ny b1 = Some c"
      "c \<in> set (positions nx ny)" "holds_brick a nx b1 c"
      by (elim exE conjE)
    from uniq [OF b(2)] obtain c2 where c2: "cell_of a nx ny b2 = Some c2"
      "holds_brick a nx b2 c2"
      by (elim exE conjE)
    from c(1) c2(1) eq have "c2 = c" by simp
    with c2(2) have "holds_brick a nx b2 c" by simp
    with c(3) obtain rb1 rb2 where "rb1 < nx" "a (fst c, snd c, b1, rb1) = 1"
      "rb2 < nx" "a (fst c, snd c, b2, rb2) = 1"
      unfolding holds_brick_iff by (elim exE conjE)
    moreover have "fst c < nx" "snd c < ny"
      using c(2) by (simp_all add: set_positions case_prod_unfold)
    ultimately show "b1 = b2"
      using one_per_cell [OF feas _ _ b(1) _ b(2), of "fst c" "snd c" rb1 rb2] by simp
  qed
  have "card (cell_of a nx ny ` set bs) = card (set bs)"
    using inj by (rule card_image)
  also have "\<dots> = length bs"
    using feasible_distinct [OF feas] by (rule distinct_card)
  finally have card: "card (cell_of a nx ny ` set bs) = length bs" .
  have empty: "a (fst c, snd c, b, rb) = 0"
    if "c \<in> set (positions nx ny)" "Some c \<notin> cell_of a nx ny ` set bs" "b \<in> set bs" "rb < nx"
    for c b rb
  proof (rule ccontr)
    assume "a (fst c, snd c, b, rb) \<noteq> 0"
    moreover have "fst c < nx" "snd c < ny"
      using that(1) by (simp_all add: set_positions case_prod_unfold)
    ultimately have "a (fst c, snd c, b, rb) = 1"
      using feasible_binary [OF feas _ _ that(3,4), of "fst c" "snd c"] by simp
    with that(4) have "holds_brick a nx b c"
      unfolding holds_brick_iff by (intro exI [of _ rb]) simp
    moreover from uniq [OF that(3)] obtain c0 where "cell_of a nx ny b = Some c0"
      "\<forall>c'\<in>set (positions nx ny). holds_brick a nx b c' \<longrightarrow> c' = c0"
      by (elim exE conjE)
    ultimately have "cell_of a nx ny b = Some c" using that(1) by simp
    then have "Some c \<in> cell_of a nx ny ` set bs"
      using that(3) by (simp add: image_iff) (rule bexI [of _ b], simp_all)
    with that(2) show False by simp
  qed
  show ?thesis
  proof (intro conjI ballI allI impI)
    fix b assume "b \<in> set bs"
    from uniq [OF this] obtain c where c: "cell_of a nx ny b = Some c"
      "c \<in> set (positions nx ny)" "holds_brick a nx b c"
      "\<forall>c'\<in>set (positions nx ny). holds_brick a nx b c' \<longrightarrow> c' = c"
      by (elim exE conjE)
    have "\<forall>c'\<in>set (positions nx ny). holds_brick a nx b c' \<longleftrightarrow> c' = c"
    proof (intro ballI iffI)
      fix c' assume "c' \<in> set (positions nx ny)" "holds_brick a nx b c'"
      with c(4) show "c' = c" by simp
    next
      fix c' assume "c' = c"
      with c(3) show "holds_brick a nx b c'" by simp
    qed
    with c(1,2) show "\<exists>c. cell_of a nx ny b = Some c \<and> c \<in> set (positions nx ny) \<and>
        (\<forall>c'\<in>set (positions nx ny). holds_brick a nx b c' \<longleftrightarrow> c' = c)"
      by (intro exI [of _ c]) simp
  next
    show "inj_on (cell_of a nx ny) (set bs)" by (rule inj)
  next
    show "card (cell_of a nx ny ` set bs) = length bs" by (rule card)
  next
    fix c b rb
    assume "c \<in> set (positions nx ny)" "Some c \<notin> cell_of a nx ny ` set bs"
      "b \<in> set bs" "rb < nx"
    then show "a (fst c, snd c, b, rb) = 0" by (rule empty)
  qed
qed

theorem bricks_to_cells_bijection_witness:
  "build 2 1 [''a'', ''b''] [] = Inr (built 2 1 [''a'', ''b''] [])
    \<and> feasible (v 2 1 [''a'', ''b'']) (built 2 1 [''a'', ''b''] []) tiny
    \<and> cell_of tiny 2 1 ''a'' = Some (0, 0)
    \<and> cell_of tiny 2 1 ''b'' = Some (1, 0)
    \<and> inj_on (cell_of tiny 2 1) (set [''a'', ''b''])
    \<and> card (cell_of tiny 2 1 ` set [''a'', ''b'']) = length [''a'', ''b'']"
proof -
  have b: "build 2 1 [''a'', ''b''] [] = Inr (built 2 1 [''a'', ''b''] [])"
    by (simp add: build_eq pairs_known_def)
  have f: "feasible (v 2 1 [''a'', ''b'']) (built 2 1 [''a'', ''b''] []) tiny"
    by code_simp
  have c: "cell_of tiny 2 1 ''a'' = Some (0, 0)" "cell_of tiny 2 1 ''b'' = Some (1, 0)"
    by code_simp+
  from bricks_to_cells_bijection [OF b f] b f c show ?thesis
    by blast
qed

subsection \<open>Anchor columns\<close>

lemma feasible_grid_not_empty:
  assumes "feasible (v nx ny bs) (built nx ny bs ps) a" and "b \<in> set bs"
  shows "0 < nx \<and> 0 < ny"
  using placed_once [OF assms] by force

lemma column_count_total:
  assumes feas: "feasible (v nx ny bs) (built nx ny bs ps) a" and b: "b \<in> set bs"
  shows "(\<Sum>rb\<leftarrow>[0..<nx]. column_count a nx ny b rb) = 1"
proof -
  have "(\<Sum>rb\<leftarrow>[0..<nx]. column_count a nx ny b rb)
      = (\<Sum>rb\<leftarrow>[0..<nx]. \<Sum>p\<leftarrow>positions nx ny. a (fst p, snd p, b, rb))"
    by (simp add: column_count_def case_prod_unfold)
  also have "\<dots> = (\<Sum>p\<leftarrow>positions nx ny. \<Sum>rb\<leftarrow>[0..<nx]. a (fst p, snd p, b, rb))"
    by (rule sum_list_swap_nested)
  also have "\<dots> = (\<Sum>i\<leftarrow>List.product (positions nx ny) [0..<nx].
      a (fst (fst i), snd (fst i), b, snd i))"
    by (simp add: sum_list_product)
  also have "\<dots> = 1"
    by (rule feasible_placement [OF feas b])
  finally show ?thesis .
qed

lemma column_count_nonneg:
  assumes feas: "feasible (v nx ny bs) (built nx ny bs ps) a" and "b \<in> set bs" "rb < nx"
  shows "0 \<le> column_count a nx ny b rb"
  unfolding column_count_def
proof (rule sum_list_nonneg)
  fix t assume "t \<in> set (map (\<lambda>(x, y). a (x, y, b, rb)) (positions nx ny))"
  then obtain x y where "x < nx" "y < ny" "t = a (x, y, b, rb)"
    by (auto simp: set_positions)
  with feasible_binary [OF feas _ _ assms(2,3), of x y] show "0 \<le> t"
    by auto
qed

lemma anchor_exists_once:
  assumes feas: "feasible (v nx ny bs) (built nx ny bs ps) a" and b: "b \<in> set bs"
  shows "\<exists>rb<nx. column_count a nx ny b rb = 1 \<and>
    (\<forall>rb'<nx. column_count a nx ny b rb' = 1 \<longrightarrow> rb' = rb)"
proof -
  define f where "f = column_count a nx ny b"
  have nonneg: "0 \<le> f r" if "r \<in> set [0..<nx]" for r
    using that column_count_nonneg [OF feas b] by (simp add: f_def)
  have total: "sum_list (map f [0..<nx]) = 1"
    using column_count_total [OF feas b] by (simp add: f_def)
  then obtain rb where rb: "rb \<in> set [0..<nx]" "0 < f rb"
    using sum_list_pos_member [of f "[0..<nx]"] by auto
  have "f rb \<le> sum_list (map f [0..<nx])"
    using nonneg rb(1) by (rule sum_list_member_le)
  with rb(2) total have one: "f rb = 1" by simp
  have other: "rb' = rb" if "rb' < nx" "f rb' = 1" for rb'
  proof (rule ccontr)
    assume "rb' \<noteq> rb"
    with that(1) have "rb' \<in> set (remove1 rb [0..<nx])" by simp
    with nonneg rb(1) have "f rb + f rb' \<le> sum_list (map f [0..<nx])"
      by (rule sum_list_two_members_le)
    with one that(2) total show False by simp
  qed
  have "rb < nx" using rb(1) by simp
  moreover have "\<forall>rb'<nx. f rb' = 1 \<longrightarrow> rb' = rb"
    using other by blast
  ultimately show ?thesis
    using one unfolding f_def by blast
qed

lemma find_agree:
  "\<forall>x\<in>set xs. P x \<longleftrightarrow> Q x \<Longrightarrow> find P xs = find Q xs"
  by (induction xs) simp_all

text \<open>
  C2. For every pair \<open>(b1, b2)\<close> of the pairs list and every feasible assignment of the
  built program, the cohesion constraints make the column sums of \<open>b1\<close> and \<open>b2\<close> equal
  for every \<open>rb\<close>, so both bricks have the same anchor column; and when the bricks are
  bricks of the problem, the placement constraints make that anchor column exist and
  be the only \<open>rb\<close> whose column sum is 1, for either brick.
\<close>

theorem same_colour_same_anchor:
  assumes "build nx ny bs ps = Inr m" and "feasible (v nx ny bs) m a" and "(b1, b2) \<in> set ps"
  shows "anchor a nx ny b1 = anchor a nx ny b2
    \<and> (\<forall>rb<nx. column_count a nx ny b1 rb = column_count a nx ny b2 rb)
    \<and> (b1 \<in> set bs \<or> b2 \<in> set bs \<longrightarrow>
        (\<exists>rb<nx. anchor a nx ny b1 = Some rb \<and> anchor a nx ny b2 = Some rb
           \<and> (\<forall>rb'<nx. column_count a nx ny b1 rb' = 1 \<longleftrightarrow> rb' = rb)
           \<and> (\<forall>rb'<nx. column_count a nx ny b2 rb' = 1 \<longleftrightarrow> rb' = rb)))"
proof -
  have m: "pairs_known nx ny bs ps"
    and feas: "feasible (v nx ny bs) (built nx ny bs ps) a"
    using build_Inr [OF assms(1)] assms(2) by simp_all
  have eq: "column_count a nx ny b1 rb = column_count a nx ny b2 rb" if "rb < nx" for rb
    using feasible_cohesion [OF feas assms(3) that]
    by (simp add: column_count_def case_prod_unfold)
  then have same: "anchor a nx ny b1 = anchor a nx ny b2"
    unfolding anchor_def by (intro find_agree) simp
  have ex: "\<exists>rb<nx. anchor a nx ny b1 = Some rb \<and> anchor a nx ny b2 = Some rb
           \<and> (\<forall>rb'<nx. column_count a nx ny b1 rb' = 1 \<longleftrightarrow> rb' = rb)
           \<and> (\<forall>rb'<nx. column_count a nx ny b2 rb' = 1 \<longleftrightarrow> rb' = rb)"
    if some: "b1 \<in> set bs \<or> b2 \<in> set bs"
  proof -
    from some feasible_grid_not_empty [OF feas] have "0 < nx \<and> 0 < ny" by blast
    with m assms(3) have b1: "b1 \<in> set bs"
      by (auto simp: pairs_known_def list_all_iff)
    from anchor_exists_once [OF feas b1] obtain rb where rb: "rb < nx"
      "column_count a nx ny b1 rb = 1"
      "\<forall>rb'<nx. column_count a nx ny b1 rb' = 1 \<longrightarrow> rb' = rb"
      by (elim exE conjE)
    have "find (\<lambda>r. column_count a nx ny b1 r = 1) [0..<nx] = Some rb"
    proof (rule find_the_only)
      show "rb \<in> set [0..<nx]" using rb(1) by simp
      show "column_count a nx ny b1 rb = 1" by (rule rb(2))
      show "\<forall>c'\<in>set [0..<nx]. column_count a nx ny b1 c' = 1 \<longrightarrow> c' = rb"
      proof (intro ballI impI)
        fix c' assume "c' \<in> set [0..<nx]" and c': "column_count a nx ny b1 c' = 1"
        then have "c' < nx" by simp
        with rb(3) c' show "c' = rb" by blast
      qed
    qed
    then have a1: "anchor a nx ny b1 = Some rb"
      by (simp add: anchor_def)
    have i1: "\<forall>rb'<nx. column_count a nx ny b1 rb' = 1 \<longleftrightarrow> rb' = rb"
      using rb by blast
    have i2: "\<forall>rb'<nx. column_count a nx ny b2 rb' = 1 \<longleftrightarrow> rb' = rb"
    proof (intro allI impI)
      fix rb' assume "rb' < nx"
      with i1 eq [of rb'] show "column_count a nx ny b2 rb' = 1 \<longleftrightarrow> rb' = rb"
        by metis
    qed
    have a2: "anchor a nx ny b2 = Some rb"
      using a1 same by (simp only:)
    from rb(1) a1 a2 i1 i2 show ?thesis
      by blast
  qed
  from same eq ex show ?thesis by blast
qed

theorem same_colour_same_anchor_witness:
  "build 2 1 [''a1'', ''a2''] [(''a1'', ''a2'')] = Inr (built 2 1 [''a1'', ''a2''] [(''a1'', ''a2'')])
    \<and> feasible (v 2 1 [''a1'', ''a2'']) (built 2 1 [''a1'', ''a2''] [(''a1'', ''a2'')]) pair_solved
    \<and> (''a1'', ''a2'') \<in> set [(''a1'', ''a2'')]
    \<and> anchor pair_solved 2 1 ''a1'' = Some 1
    \<and> anchor pair_solved 2 1 ''a2'' = Some 1"
proof -
  have b: "build 2 1 [''a1'', ''a2''] [(''a1'', ''a2'')]
      = Inr (built 2 1 [''a1'', ''a2''] [(''a1'', ''a2'')])"
    by (simp add: build_eq pairs_known_def)
  have f: "feasible (v 2 1 [''a1'', ''a2'']) (built 2 1 [''a1'', ''a2''] [(''a1'', ''a2'')])
      pair_solved"
    by code_simp
  have p: "(''a1'', ''a2'') \<in> set [(''a1'', ''a2'')]"
    by simp
  have a1: "anchor pair_solved 2 1 ''a1'' = Some 1"
    by code_simp
  from same_colour_same_anchor [OF b f p] have "anchor pair_solved 2 1 ''a1'' = anchor pair_solved 2 1 ''a2''"
    by (rule conjunct1)
  with a1 have "anchor pair_solved 2 1 ''a2'' = Some 1"
    by simp
  with b f p a1 show ?thesis
    by (intro conjI)
qed

text \<open>
  C3. In every feasible assignment of the built program, a variable
  \<open>v[x][y][brick][rb]\<close> that is 1 has \<open>x \<le> rb\<close>: no brick is placed right of its
  anchor column.
\<close>

theorem placed_left_of_anchor:
  assumes "build nx ny bs ps = Inr m" and "feasible (v nx ny bs) m a"
    and "(x, y, b, rb) \<in> set (v nx ny bs)" and "a (x, y, b, rb) = 1"
  shows "x \<le> rb"
proof -
  have feas: "feasible (v nx ny bs) (built nx ny bs ps) a"
    using build_Inr [OF assms(1)] assms(2) by simp
  from assms(3) have "x < nx" "y < ny" "b \<in> set bs" "rb < nx"
    by (simp_all add: set_v)
  with feas show ?thesis
    using assms(4) by (intro never_right_of_anchor)
qed

theorem placed_left_of_anchor_witness:
  "build 2 1 [''a1'', ''a2''] [(''a1'', ''a2'')] = Inr (built 2 1 [''a1'', ''a2''] [(''a1'', ''a2'')])
    \<and> feasible (v 2 1 [''a1'', ''a2'']) (built 2 1 [''a1'', ''a2''] [(''a1'', ''a2'')]) pair_solved
    \<and> (0, 0, ''a1'', 1) \<in> set (v 2 1 [''a1'', ''a2''])
    \<and> pair_solved (0, 0, ''a1'', 1) = 1
    \<and> (0 :: nat) \<le> 1"
proof -
  have b: "build 2 1 [''a1'', ''a2''] [(''a1'', ''a2'')]
      = Inr (built 2 1 [''a1'', ''a2''] [(''a1'', ''a2'')])"
    by (simp add: build_eq pairs_known_def)
  have f: "feasible (v 2 1 [''a1'', ''a2'']) (built 2 1 [''a1'', ''a2''] [(''a1'', ''a2'')])
      pair_solved"
    by code_simp
  have k: "(0, 0, ''a1'', 1) \<in> set (v 2 1 [''a1'', ''a2''])"
    by (simp add: set_v)
  have o: "pair_solved (0, 0, ''a1'', 1) = 1"
    by (simp add: pair_solved_def)
  from placed_left_of_anchor [OF b f k o] b f k o show ?thesis
    by (intro conjI)
qed

subsection \<open>The display loop in closed form\<close>

lemma foldl_append_if:
  "foldl (\<lambda>row i. if P i then row @ t i else row) row is =
     row @ concat (map (\<lambda>i. if P i then t i else []) is)"
  by (induction "is" arbitrary: row) simp_all

lemma foldl_append_each:
  "foldl (\<lambda>row i. row @ t i) row is = row @ concat (map t is)"
  by (induction "is" arbitrary: row) simp_all

lemma cell_loop_ok:
  assumes "x < nx" "y < ny"
  shows "cell_loop nx ny bs a x y row = Inr (row @ cell_text nx bs a x y)"
proof -
  have "cell_loop nx ny bs a x y row =
      Inr (foldl (\<lambda>row i. if a (x, y, fst i, snd i) = 1
                   then row @ fst i @ ''['' @ str_nat (snd i) @ '']'' else row)
             row [(b, rb). b \<leftarrow> bs, rb \<leftarrow> [0..<nx]])"
    unfolding cell_loop_def
    by (rule fold_result_ok) (use assms in \<open>auto simp: v_get_ok\<close>)
  then show ?thesis
    by (simp add: foldl_append_if cell_text_def case_prod_unfold)
qed

lemma row_loop_ok:
  assumes "y < ny"
  shows "row_loop nx ny bs a y = Inr (row_text nx bs a y)"
proof -
  have "row_loop nx ny bs a y =
      Inr (foldl (\<lambda>row x. row @ (cell_text nx bs a x y @ [CHR 0x09])) [] [0..<nx])"
    unfolding row_loop_def
    by (rule fold_result_ok) (use assms in \<open>simp add: cell_loop_ok\<close>)
  then show ?thesis
    by (simp only: foldl_append_each row_text_def append_Nil)
qed

lemma display_ok: "display nx ny bs a = Inr (map (row_text nx bs a) [0..<ny])"
  unfolding display_def by (rule traverse_ok) (simp add: row_loop_ok)

text \<open>
  C5 (as the code has it). The display has no consistency check and never fails: for
  every assignment, solved or not, it returns the printed lines, and the text of a
  cell is the concatenation of \<open><brick>[<rb>]\<close> for every variable of that cell that is
  1, in loop order. A cell with more than one variable at 1 is printed with all of
  them; no \<open>InconsistentSolution\<close> error exists.
\<close>

theorem display_never_fails:
  "display nx ny bs a =
     Inr (map (\<lambda>y. concat (map (\<lambda>x. cell_text nx bs a x y @ [CHR 0x09]) [0..<nx])) [0..<ny])"
  using display_ok [of nx ny bs a] by (simp add: row_text_def [abs_def])

theorem display_never_fails_witness:
  "display 2 1 [''a'', ''b''] tiny = Inr [''a[0]'' @ [CHR 0x09] @ ''b[1]'' @ [CHR 0x09]]"
proof -
  have "map (\<lambda>y. concat (map (\<lambda>x. cell_text 2 [''a'', ''b''] tiny x y @ [CHR 0x09]) [0..<2])) [0..<1]
      = [''a[0]'' @ [CHR 0x09] @ ''b[1]'' @ [CHR 0x09]]"
    by code_simp
  with display_never_fails [of 2 1 "[''a'', ''b'']" tiny] show ?thesis
    by simp
qed

text \<open>
  Two bricks in a 1 x 1 box with both variables of the only cell at 1: the line holds
  both entries and nothing fails.
\<close>

theorem display_two_ones_in_a_cell:
  "all_ones (0, 0, ''a'', 0) = 1 \<and> all_ones (0, 0, ''b'', 0) = 1
    \<and> display 1 1 [''a'', ''b''] all_ones = Inr [''a[0]b[0]'' @ [CHR 0x09]]"
proof -
  have "map (row_text 1 [''a'', ''b''] all_ones) [0..<1] = [''a[0]b[0]'' @ [CHR 0x09]]"
    by code_simp
  then show ?thesis
    by (simp add: display_ok all_ones_def)
qed

lemma concat_if_find:
  assumes "distinct is" and "\<forall>i\<in>set is. \<forall>j\<in>set is. P i \<longrightarrow> P j \<longrightarrow> i = j"
  shows "concat (map (\<lambda>i. if P i then t i else []) is) =
    (case find P is of None \<Rightarrow> [] | Some i \<Rightarrow> t i)"
  using assms
proof (induction "is")
  case Nil
  then show ?case by simp
next
  case (Cons i js)
  have d: "distinct js" and notin: "i \<notin> set js"
    using Cons.prems(1) by simp_all
  have sub: "\<forall>k\<in>set js. \<forall>j\<in>set js. P k \<longrightarrow> P j \<longrightarrow> k = j"
    using Cons.prems(2) by (meson list.set_intros(2))
  show ?case
  proof (cases "P i")
    case True
    have "\<not> P j" if "j \<in> set js" for j
    proof
      assume "P j"
      with True that Cons.prems(2) have "i = j"
        by (meson list.set_intros)
      with that notin show False by simp
    qed
    then have "concat (map (\<lambda>i. if P i then t i else []) js) = []"
      by simp
    with True show ?thesis by simp
  next
    case False
    with Cons.IH [OF d sub] show ?thesis by simp
  qed
qed

lemma cell_text_spec_cell:
  assumes feas: "feasible (v nx ny bs) (built nx ny bs ps) a" and "x < nx" "y < ny"
  shows "cell_text nx bs a x y = spec_cell nx bs a x y"
proof -
  have "distinct (List.product bs [0..<nx])"
    using feasible_distinct [OF feas] by (simp add: distinct_product)
  moreover have "\<forall>i\<in>set (List.product bs [0..<nx]). \<forall>j\<in>set (List.product bs [0..<nx]).
      a (x, y, fst i, snd i) = 1 \<longrightarrow> a (x, y, fst j, snd j) = 1 \<longrightarrow> i = j"
  proof (intro ballI impI)
    fix i j
    assume "i \<in> set (List.product bs [0..<nx])" "j \<in> set (List.product bs [0..<nx])"
      and one: "a (x, y, fst i, snd i) = 1" "a (x, y, fst j, snd j) = 1"
    then have "fst i \<in> set bs" "snd i < nx" "fst j \<in> set bs" "snd j < nx"
      by (simp_all add: mem_Times_iff)
    with one_per_cell [OF feas assms(2,3), of "fst i" "snd i" "fst j" "snd j"] one
    show "i = j" by (simp add: prod_eq_iff)
  qed
  ultimately have "concat (map (\<lambda>i. if a (x, y, fst i, snd i) = 1
        then fst i @ ''['' @ str_nat (snd i) @ '']'' else []) (List.product bs [0..<nx])) =
    (case find (\<lambda>i. a (x, y, fst i, snd i) = 1) (List.product bs [0..<nx]) of
       None \<Rightarrow> [] | Some i \<Rightarrow> fst i @ ''['' @ str_nat (snd i) @ '']'')"
    by (rule concat_if_find)
  then show ?thesis
    by (simp add: cell_text_def spec_cell_def case_prod_unfold product_concat_map
        split: option.split)
qed

text \<open>
  C8 (as the code has it). For every solved assignment the printed output has one line
  per row, in ascending \<open>y\<close>; a line holds the \<open>XSIZE\<close> cells in ascending \<open>x\<close>, each
  cell followed by a tab (so the line ends with a tab); a cell is \<open><brick>[<rb>]\<close> for
  the variable that is 1 there, or blank when none is.
\<close>

theorem display_tab_terminated_grid:
  assumes "build nx ny bs ps = Inr m" and "feasible (v nx ny bs) m a"
  shows "display nx ny bs a = Inr (tab_terminated_grid nx ny bs a)
    \<and> length (tab_terminated_grid nx ny bs a) = ny"
proof -
  have feas: "feasible (v nx ny bs) (built nx ny bs ps) a"
    using build_Inr [OF assms(1)] assms(2) by simp
  have "map (row_text nx bs a) [0..<ny] = tab_terminated_grid nx ny bs a"
    unfolding tab_terminated_grid_def row_text_def
    by (intro map_cong arg_cong [of _ _ concat] refl)
      (simp add: cell_text_spec_cell [OF feas])
  then show ?thesis
    by (simp add: display_ok tab_terminated_grid_def)
qed

text \<open>
  The line printed for the solved 2 x 1 box ends with a tab; with tabs between the
  cells only it would not.
\<close>

theorem display_not_tab_separated:
  "feasible (v 2 1 [''a'', ''b'']) (built 2 1 [''a'', ''b''] []) tiny
    \<and> display 2 1 [''a'', ''b''] tiny = Inr [''a[0]'' @ [CHR 0x09] @ ''b[1]'' @ [CHR 0x09]]
    \<and> tab_separated_grid 2 1 [''a'', ''b''] tiny = [''a[0]'' @ [CHR 0x09] @ ''b[1]'']
    \<and> display 2 1 [''a'', ''b''] tiny \<noteq> Inr (tab_separated_grid 2 1 [''a'', ''b''] tiny)"
proof -
  have f: "feasible (v 2 1 [''a'', ''b'']) (built 2 1 [''a'', ''b''] []) tiny"
    by code_simp
  have "map (row_text 2 [''a'', ''b''] tiny) [0..<1] = [''a[0]'' @ [CHR 0x09] @ ''b[1]'' @ [CHR 0x09]]"
    by code_simp
  then have d: "display 2 1 [''a'', ''b''] tiny = Inr [''a[0]'' @ [CHR 0x09] @ ''b[1]'' @ [CHR 0x09]]"
    by (simp add: display_ok)
  have s: "tab_separated_grid 2 1 [''a'', ''b''] tiny = [''a[0]'' @ [CHR 0x09] @ ''b[1]'']"
    by code_simp
  from f d s show ?thesis by simp
qed

subsection \<open>When building fails\<close>

text \<open>
  C4 (as the code has it). The notebook has no validation step and no
  \<open>InvalidModel\<close> error. Building fails, with the \<open>KeyError\<close> of the subscript
  \<open>v[x][y][b][rb]\<close> in the pairs loop and so before the solver is invoked, if and
  only if the grid is not empty and some pair names a brick that is not in
  \<open>bricks\<close>. In every other case, duplicate bricks and
  \<open>XSIZE * YSIZE < len(bricks)\<close> included, the program is built.
\<close>

theorem build_fails_iff_unknown_pair_brick:
  "(build nx ny bs ps = Inl KeyError \<longleftrightarrow>
      0 < nx \<and> 0 < ny \<and> (\<exists>p\<in>set ps. fst p \<notin> set bs \<or> snd p \<notin> set bs))
    \<and> (build nx ny bs ps \<noteq> Inl KeyError \<longleftrightarrow> build nx ny bs ps = Inr (built nx ny bs ps))"
  by (simp add: build_eq pairs_known_def list_all_iff case_prod_unfold)

theorem build_fails_iff_unknown_pair_brick_witness:
  "build 1 1 [''a''] [(''a'', ''z'')] = Inl KeyError
    \<and> build 1 0 [''a''] [(''a'', ''z'')] = Inr (built 1 0 [''a''] [(''a'', ''z'')])"
  using build_fails_iff_unknown_pair_brick [of 1 1 "[''a'']" "[(''a'', ''z'')]"]
    build_fails_iff_unknown_pair_brick [of 1 0 "[''a'']" "[(''a'', ''z'')]"]
  by auto

text \<open>
  Two equal bricks for a box of one cell: the bricks are not distinct and do not fit,
  and the program is built all the same.
\<close>

theorem build_accepts_duplicates_and_overflow:
  "\<not> distinct [''a'', ''a''] \<and> (1 :: nat) * 1 < length [''a'', ''a'']
    \<and> build 1 1 [''a'', ''a''] [] = Inr (built 1 1 [''a'', ''a''] [])"
  by (simp add: build_eq pairs_known_def)

subsection \<open>The objective\<close>

lemma v_product:
  "v nx ny bs =
     List.product [0..<nx] (List.product [0..<ny] (List.product (dict_keys bs) [0..<nx]))"
  by (simp add: v_keys product_concat_map map_concat comp_def)

lemma concat_concat: "concat (concat xss) = concat (map concat xss)"
  by (induction xss) simp_all

lemma objective_terms_eq:
  "objective_terms nx ny bs =
     [(10 * \<bar>int rb - int x\<bar>, (x, y, b, rb)).
        x \<leftarrow> [0..<nx], y \<leftarrow> [0..<ny], b \<leftarrow> bs, rb \<leftarrow> [0..<nx]]"
  by (simp add: objective_terms_def positions_def map_concat comp_def concat_concat)

lemma objective_terms_set:
  "set (objective_terms nx ny bs) =
     (\<lambda>k. (10 * \<bar>int (snd (snd (snd k))) - int (fst k)\<bar>, k)) ` set (v nx ny bs)"
  by (force simp: objective_terms_eq set_v image_iff)

lemma v_items_variable:
  "e \<in> set (v_items nx ny bs) \<Longrightarrow> snd e = \<lparr>lowBound = 0, upBound = 1, cat = LpInteger\<rparr>"
  by (auto simp: v_items_def LpVariable_dicts_def)

lemma binary_bounds:
  "binary (v nx ny bs) a \<longleftrightarrow>
     (\<forall>e\<in>set (v_items nx ny bs). lowBound (snd e) \<le> a (fst e) \<and> a (fst e) \<le> upBound (snd e))"
proof -
  have "(z = 0 \<or> z = 1) \<longleftrightarrow> (0 \<le> z \<and> z \<le> 1)" for z :: int
    by auto
  then have "binary (v nx ny bs) a \<longleftrightarrow>
      (\<forall>e\<in>set (v_items nx ny bs). 0 \<le> a (fst e) \<and> a (fst e) \<le> 1)"
    by (simp add: binary_def list_all_iff v_def)
  then show ?thesis
    by (simp add: v_items_variable)
qed

text \<open>
  C7 (as the code has it). The objective of the built program is, to be minimised,
  exactly the sum of \<open>penalty(x, rb) * v[x][y][brick][rb]\<close> (the penalty being
  \<open>10 * |rb - x|\<close>, see C6) over every \<open>x\<close> in \<open>0..XSIZE-1\<close>, \<open>y\<close> in \<open>0..YSIZE-1\<close>,
  brick of \<open>bricks\<close> and \<open>rb\<close> in \<open>0..XSIZE-1\<close>, in this order and with no other term,
  every term being over a variable of \<open>v\<close>. The dict \<open>v\<close> holds one variable per
  different index tuple, each an integer variable with bounds 0 and 1, that is, one
  that takes the values 0 and 1 only. Their number is
  \<open>XSIZE * YSIZE * d * XSIZE\<close> for \<open>d\<close> the number of different brick ids in \<open>bricks\<close>:
  it is \<open>XSIZE * YSIZE * len(bricks) * XSIZE\<close> when no brick is listed twice, and less
  otherwise.
\<close>

theorem objective_is_penalty_sum:
  assumes "build nx ny bs ps = Inr m"
  shows "sense m = LpMinimize
    \<and> objective m =
        [(10 * \<bar>int rb - int x\<bar>, (x, y, b, rb)).
           x \<leftarrow> [0..<nx], y \<leftarrow> [0..<ny], b \<leftarrow> bs, rb \<leftarrow> [0..<nx]]
    \<and> (\<forall>t\<in>set (objective m). snd t \<in> set (v nx ny bs))
    \<and> set (v nx ny bs) = {(x, y, b, rb). x < nx \<and> y < ny \<and> b \<in> set bs \<and> rb < nx}
    \<and> distinct (v nx ny bs)
    \<and> length (v nx ny bs) = nx * ny * card (set bs) * nx
    \<and> (distinct bs \<longrightarrow> length (v nx ny bs) = nx * ny * length bs * nx)
    \<and> (\<forall>e\<in>set (v_items nx ny bs).
          lowBound (snd e) = 0 \<and> upBound (snd e) = 1 \<and> cat (snd e) = LpInteger)
    \<and> (\<forall>a. binary (v nx ny bs) a \<longleftrightarrow>
          (\<forall>e\<in>set (v_items nx ny bs).
             lowBound (snd e) \<le> a (fst e) \<and> a (fst e) \<le> upBound (snd e)))"
proof -
  have m: "m = built nx ny bs ps"
    using build_Inr [OF assms] by simp
  have obj: "objective m =
        [(10 * \<bar>int rb - int x\<bar>, (x, y, b, rb)).
           x \<leftarrow> [0..<nx], y \<leftarrow> [0..<ny], b \<leftarrow> bs, rb \<leftarrow> [0..<nx]]"
    and sense: "sense m = LpMinimize"
    unfolding m by (simp_all add: built_def objective_terms_eq)
  have within: "\<forall>t\<in>set (objective m). snd t \<in> set (v nx ny bs)"
    unfolding m by (auto simp: built_def objective_terms_set)
  have dist: "distinct (v nx ny bs)"
    by (simp add: v_product distinct_product)
  have len: "length (v nx ny bs) = nx * ny * card (set bs) * nx"
    by (simp add: v_product length_dict_keys)
  have len': "distinct bs \<longrightarrow> length (v nx ny bs) = nx * ny * length bs * nx"
    by (simp add: len distinct_card)
  have vars: "\<forall>e\<in>set (v_items nx ny bs).
          lowBound (snd e) = 0 \<and> upBound (snd e) = 1 \<and> cat (snd e) = LpInteger"
    by (simp add: v_items_variable)
  have bin: "\<forall>a. binary (v nx ny bs) a \<longleftrightarrow>
          (\<forall>e\<in>set (v_items nx ny bs).
             lowBound (snd e) \<le> a (fst e) \<and> a (fst e) \<le> upBound (snd e))"
    by (intro allI binary_bounds)
  from sense obj within set_v [of nx ny bs] dist len len' vars bin show ?thesis
    by (intro conjI)
qed

theorem objective_is_penalty_sum_witness:
  "build 2 1 [''a'', ''b''] [] = Inr (built 2 1 [''a'', ''b''] [])
    \<and> objective (built 2 1 [''a'', ''b''] []) =
        [(0, (0, 0, ''a'', 0)), (10, (0, 0, ''a'', 1)), (0, (0, 0, ''b'', 0)), (10, (0, 0, ''b'', 1)),
         (10, (1, 0, ''a'', 0)), (0, (1, 0, ''a'', 1)), (10, (1, 0, ''b'', 0)), (0, (1, 0, ''b'', 1))]
    \<and> distinct [''a'', ''b'']
    \<and> length (v 2 1 [''a'', ''b'']) = 8
    \<and> distinct (v 2 1 [''a'', ''b''])"
proof -
  have b: "build 2 1 [''a'', ''b''] [] = Inr (built 2 1 [''a'', ''b''] [])"
    by (simp add: build_eq pairs_known_def)
  have o: "[(10 * \<bar>int rb - int x\<bar>, (x, y, b, rb)).
           x \<leftarrow> [0..<2], y \<leftarrow> [0..<1], b \<leftarrow> [''a'', ''b''], rb \<leftarrow> [0..<2]] =
        [(0, (0, 0, ''a'', 0)), (10, (0, 0, ''a'', 1)), (0, (0, 0, ''b'', 0)), (10, (0, 0, ''b'', 1)),
         (10, (1, 0, ''a'', 0)), (0, (1, 0, ''a'', 1)), (10, (1, 0, ''b'', 0)), (0, (1, 0, ''b'', 1))]"
    by code_simp
  have d: "distinct [''a'', ''b'']"
    by simp
  note t = objective_is_penalty_sum [OF b]
  have "objective (built 2 1 [''a'', ''b''] []) =
        [(10 * \<bar>int rb - int x\<bar>, (x, y, b, rb)).
           x \<leftarrow> [0..<2], y \<leftarrow> [0..<1], b \<leftarrow> [''a'', ''b''], rb \<leftarrow> [0..<2]]"
    using t by (elim conjE)
  moreover have "distinct (v 2 1 [''a'', ''b''])"
    using t by (elim conjE)
  moreover have "distinct [''a'', ''b''] \<longrightarrow> length (v 2 1 [''a'', ''b'']) = 2 * 1 * length [''a'', ''b''] * 2"
    using t by (elim conjE)
  ultimately show ?thesis
    using b o d by simp
qed

text \<open>
  A brick listed twice for a box of one cell: the program is built and \<open>v\<close> holds one
  variable, not \<open>XSIZE * YSIZE * len(bricks) * XSIZE = 2\<close>.
\<close>

theorem one_variable_for_a_brick_listed_twice:
  "build 1 1 [''a'', ''a''] [] = Inr (built 1 1 [''a'', ''a''] [])
    \<and> length (v 1 1 [''a'', ''a'']) = 1
    \<and> (1 :: nat) * 1 * length [''a'', ''a''] * 1 = 2"
proof -
  have "build 1 1 [''a'', ''a''] [] = Inr (built 1 1 [''a'', ''a''] [])"
    by (simp add: build_eq pairs_known_def)
  moreover have "length (v 1 1 [''a'', ''a'']) = 1"
    by code_simp
  ultimately show ?thesis by simp
qed

subsection \<open>The value of the objective\<close>

lemma eval_nonneg:
  assumes "\<forall>t\<in>set e. 0 \<le> fst t * a (snd t)"
  shows "0 \<le> eval a e"
  unfolding eval_def using assms
  by (intro sum_list_nonneg) (auto simp: case_prod_unfold)

lemma eval_dvd:
  assumes "\<forall>t\<in>set e. d dvd fst t"
  shows "d dvd eval a e"
  using assms by (induction e) (auto simp: eval_def)

lemma eval_zero_iff:
  assumes "\<forall>t\<in>set e. 0 \<le> fst t * a (snd t)"
  shows "eval a e = 0 \<longleftrightarrow> (\<forall>t\<in>set e. fst t * a (snd t) = 0)"
proof -
  have "eval a e = sum_list (map (\<lambda>t. fst t * a (snd t)) e)"
    by (simp add: eval_def case_prod_unfold)
  moreover have "sum_list (map (\<lambda>t. fst t * a (snd t)) e) = 0 \<longleftrightarrow>
      (\<forall>z\<in>set (map (\<lambda>t. fst t * a (snd t)) e). z = 0)"
    using assms by (intro sum_list_nonneg_eq_0_iff) auto
  ultimately show ?thesis by simp
qed

text \<open>
  C10. For every 0/1 assignment to the variables, feasible or not, the value of the
  objective is a non-negative integer multiple of 10, and it is 0 if and only if
  every variable set to 1 has \<open>x = rb\<close>. So the minimisation is bounded below by 0.
\<close>

theorem objective_value_bounded:
  assumes "build nx ny bs ps = Inr m" and "binary (v nx ny bs) a"
  shows "0 \<le> eval a (objective m) \<and> 10 dvd eval a (objective m)
    \<and> (eval a (objective m) = 0 \<longleftrightarrow>
        (\<forall>x y b rb. (x, y, b, rb) \<in> set (v nx ny bs) \<and> a (x, y, b, rb) = 1 \<longrightarrow> x = rb))"
proof -
  have m: "objective m = objective_terms nx ny bs"
    using build_Inr [OF assms(1)] by (simp add: built_def)
  have bin: "a k = 0 \<or> a k = 1" if "k \<in> set (v nx ny bs)" for k
    using assms(2) that by (simp add: binary_def list_all_iff)
  have terms: "t \<in> set (objective_terms nx ny bs) \<longleftrightarrow>
      snd t \<in> set (v nx ny bs) \<and>
      fst t = 10 * \<bar>int (snd (snd (snd (snd t)))) - int (fst (snd t))\<bar>" for t
    by (cases t) (auto simp: objective_terms_set image_iff)
  have nonneg: "\<forall>t\<in>set (objective_terms nx ny bs). 0 \<le> fst t * a (snd t)"
  proof
    fix t assume t: "t \<in> set (objective_terms nx ny bs)"
    then have "0 \<le> fst t" by (simp add: terms)
    moreover have "0 \<le> a (snd t)" using bin [of "snd t"] t by (auto simp: terms)
    ultimately show "0 \<le> fst t * a (snd t)" by simp
  qed
  have dvd: "\<forall>t\<in>set (objective_terms nx ny bs). 10 dvd fst t"
    by (simp add: terms)
  have zero: "(\<forall>t\<in>set (objective_terms nx ny bs). fst t * a (snd t) = 0) \<longleftrightarrow>
      (\<forall>x y b rb. (x, y, b, rb) \<in> set (v nx ny bs) \<and> a (x, y, b, rb) = 1 \<longrightarrow> x = rb)"
  proof (intro iffI allI impI ballI)
    fix x y b rb
    assume all: "\<forall>t\<in>set (objective_terms nx ny bs). fst t * a (snd t) = 0"
      and k: "(x, y, b, rb) \<in> set (v nx ny bs) \<and> a (x, y, b, rb) = 1"
    then have "(10 * \<bar>int rb - int x\<bar>, (x, y, b, rb)) \<in> set (objective_terms nx ny bs)"
      by (simp add: terms)
    with all have "10 * \<bar>int rb - int x\<bar> * a (x, y, b, rb) = 0"
      by fastforce
    with k show "x = rb" by simp
  next
    fix t
    assume all: "\<forall>x y b rb. (x, y, b, rb) \<in> set (v nx ny bs) \<and> a (x, y, b, rb) = 1 \<longrightarrow> x = rb"
      and t: "t \<in> set (objective_terms nx ny bs)"
    obtain c x y b rb where teq: "t = (c, x, y, b, rb)"
      by (metis prod_cases5)
    with t have k: "(x, y, b, rb) \<in> set (v nx ny bs)" and c: "c = 10 * \<bar>int rb - int x\<bar>"
      by (simp_all add: terms)
    show "fst t * a (snd t) = 0"
    proof (cases "a (x, y, b, rb) = 1")
      case True
      with all k have "x = rb" by blast
      with c teq show ?thesis by simp
    next
      case False
      with bin [OF k] teq show ?thesis by simp
    qed
  qed
  show ?thesis
    unfolding m using eval_nonneg [OF nonneg] eval_dvd [OF dvd] eval_zero_iff [OF nonneg] zero
    by simp
qed

theorem objective_value_bounded_witness:
  "build 2 1 [''a1'', ''a2''] [(''a1'', ''a2'')] = Inr (built 2 1 [''a1'', ''a2''] [(''a1'', ''a2'')])
    \<and> binary (v 2 1 [''a1'', ''a2'']) pair_solved
    \<and> eval pair_solved (objective (built 2 1 [''a1'', ''a2''] [(''a1'', ''a2'')])) = 10
    \<and> 0 \<le> eval pair_solved (objective (built 2 1 [''a1'', ''a2''] [(''a1'', ''a2'')]))
    \<and> 10 dvd eval pair_solved (objective (built 2 1 [''a1'', ''a2''] [(''a1'', ''a2'')]))"
proof -
  have b: "build 2 1 [''a1'', ''a2''] [(''a1'', ''a2'')]
      = Inr (built 2 1 [''a1'', ''a2''] [(''a1'', ''a2'')])"
    by (simp add: build_eq pairs_known_def)
  have f: "binary (v 2 1 [''a1'', ''a2'']) pair_solved"
    by code_simp
  have e: "eval pair_solved (objective (built 2 1 [''a1'', ''a2''] [(''a1'', ''a2'')])) = 10"
    by code_simp
  from objective_value_bounded [OF b f] b f e show ?thesis
    by blast
qed

subsection \<open>The notebook's own data\<close>

lemma notebook_build:
  "build XSIZE YSIZE bricks pairs = Inr (built XSIZE YSIZE bricks pairs)"
proof -
  have "pairs_known XSIZE YSIZE bricks pairs"
    by code_simp
  then show ?thesis by (simp add: build_eq)
qed

lemma notebook_solution_feasible:
  "feasible (v XSIZE YSIZE bricks) (built XSIZE YSIZE bricks pairs) notebook_solution"
  by code_simp

lemma pairs_listing:
  "set pairs = set (same_colour_pairs bricks)" "distinct pairs"
  "length pairs = 3 + 1 + 6 + 1"
  "length (filter (\<lambda>p. colour (fst p) = ''a'' \<and> colour (snd p) = ''a'') pairs) = 3"
  "length (filter (\<lambda>p. colour (fst p) = ''b'' \<and> colour (snd p) = ''b'') pairs) = 1"
  "length (filter (\<lambda>p. colour (fst p) = ''c'' \<and> colour (snd p) = ''c'') pairs) = 6"
  "length (filter (\<lambda>p. colour (fst p) = ''d'' \<and> colour (snd p) = ''d'') pairs) = 1"
  "list_all (\<lambda>p. fst p \<noteq> ''e1'' \<and> snd p \<noteq> ''e1'') pairs"
  by code_simp+

lemma pairs_cover:
  "list_all (\<lambda>b1. list_all (\<lambda>b2. (b1 \<noteq> b2 \<and> colour b1 = colour b2) =
      ((b1, b2) \<in> set pairs \<or> (b2, b1) \<in> set pairs)) bricks) bricks"
  by code_simp

lemma cohesion_column_count:
  assumes "feasible ks (built nx ny bs ps) a" and "(b1, b2) \<in> set ps" and "rb < nx"
  shows "column_count a nx ny b1 rb = column_count a nx ny b2 rb"
  using feasible_cohesion [OF assms] by (simp add: column_count_def case_prod_unfold)

text \<open>
  C9. In the notebook's data the pairs list is exactly the set of the unordered pairs
  of different bricks with the same letter prefix, each listed once: the 3 pairs
  of colour a, the 1 of colour b, the 6 of colour c, the 1 of colour d, and none with
  \<open>e1\<close>. So every two bricks of one colour are tied by a cohesion constraint of
  their own, and have equal column sums in every feasible assignment.
\<close>

theorem pairs_are_all_same_colour_pairs:
  "set pairs = set (same_colour_pairs bricks) \<and> distinct pairs
    \<and> length pairs = 3 + 1 + 6 + 1
    \<and> length (filter (\<lambda>p. colour (fst p) = ''a'' \<and> colour (snd p) = ''a'') pairs) = 3
    \<and> length (filter (\<lambda>p. colour (fst p) = ''b'' \<and> colour (snd p) = ''b'') pairs) = 1
    \<and> length (filter (\<lambda>p. colour (fst p) = ''c'' \<and> colour (snd p) = ''c'') pairs) = 6
    \<and> length (filter (\<lambda>p. colour (fst p) = ''d'' \<and> colour (snd p) = ''d'') pairs) = 1
    \<and> (\<forall>p\<in>set pairs. fst p \<noteq> ''e1'' \<and> snd p \<noteq> ''e1'')
    \<and> (\<forall>b1\<in>set bricks. \<forall>b2\<in>set bricks.
          (b1 \<noteq> b2 \<and> colour b1 = colour b2) \<longleftrightarrow>
          ((b1, b2) \<in> set pairs \<or> (b2, b1) \<in> set pairs))
    \<and> (\<forall>a b1 b2 rb.
          feasible (v XSIZE YSIZE bricks) (built XSIZE YSIZE bricks pairs) a \<and>
          b1 \<in> set bricks \<and> b2 \<in> set bricks \<and> colour b1 = colour b2 \<and> rb < XSIZE \<longrightarrow>
          column_count a XSIZE YSIZE b1 rb = column_count a XSIZE YSIZE b2 rb)"
proof -
  have cover: "(b1 \<noteq> b2 \<and> colour b1 = colour b2) \<longleftrightarrow>
      ((b1, b2) \<in> set pairs \<or> (b2, b1) \<in> set pairs)"
    if "b1 \<in> set bricks" "b2 \<in> set bricks" for b1 b2
    using pairs_cover that unfolding list_all_iff by blast
  have none: "\<forall>p\<in>set pairs. fst p \<noteq> ''e1'' \<and> snd p \<noteq> ''e1''"
    using pairs_listing(8) unfolding list_all_iff .
  have sums: "column_count a XSIZE YSIZE b1 rb = column_count a XSIZE YSIZE b2 rb"
    if feas: "feasible (v XSIZE YSIZE bricks) (built XSIZE YSIZE bricks pairs) a"
      and b: "b1 \<in> set bricks" "b2 \<in> set bricks" and c: "colour b1 = colour b2"
      and rb: "rb < XSIZE"
    for a b1 b2 rb
  proof (cases "b1 = b2")
    case True
    then show ?thesis by simp
  next
    case False
    with cover [OF b] c consider "(b1, b2) \<in> set pairs" | "(b2, b1) \<in> set pairs"
      by blast
    then show ?thesis
    proof cases
      case 1
      then show ?thesis using feas rb by (intro cohesion_column_count)
    next
      case 2
      then have "column_count a XSIZE YSIZE b2 rb = column_count a XSIZE YSIZE b1 rb"
        using feas rb by (intro cohesion_column_count)
      then show ?thesis by (rule sym)
    qed
  qed
  from pairs_listing(1-7) none cover sums show ?thesis
    by blast
qed

theorem pairs_are_all_same_colour_pairs_witness:
  "feasible (v XSIZE YSIZE bricks) (built XSIZE YSIZE bricks pairs) notebook_solution
    \<and> ''c1'' \<in> set bricks \<and> ''c4'' \<in> set bricks \<and> colour ''c1'' = colour ''c4''
    \<and> (''c1'', ''c4'') \<in> set pairs \<and> (3 :: nat) < XSIZE
    \<and> column_count notebook_solution XSIZE YSIZE ''c1'' 3 =
        column_count notebook_solution XSIZE YSIZE ''c4'' 3"
proof -
  have facts: "''c1'' \<in> set bricks" "''c4'' \<in> set bricks" "colour ''c1'' = colour ''c4''"
    "(''c1'', ''c4'') \<in> set pairs" "(3 :: nat) < XSIZE"
    by code_simp+
  from pairs_are_all_same_colour_pairs
  have "feasible (v XSIZE YSIZE bricks) (built XSIZE YSIZE bricks pairs) notebook_solution \<and>
      ''c1'' \<in> set bricks \<and> ''c4'' \<in> set bricks \<and> colour ''c1'' = colour ''c4'' \<and> 3 < XSIZE \<longrightarrow>
      column_count notebook_solution XSIZE YSIZE ''c1'' 3 =
        column_count notebook_solution XSIZE YSIZE ''c4'' 3"
    by blast
  with notebook_solution_feasible facts show ?thesis
    by blast
qed

text \<open>
  On the notebook's data and the solution it prints, the display gives the three lines
  the notebook records as the output of cell 12.
\<close>

theorem display_tab_terminated_grid_witness:
  "build XSIZE YSIZE bricks pairs = Inr (built XSIZE YSIZE bricks pairs)
    \<and> feasible (v XSIZE YSIZE bricks) (built XSIZE YSIZE bricks pairs) notebook_solution
    \<and> display XSIZE YSIZE bricks notebook_solution =
        Inr [''b2[0]'' @ [CHR 0x09] @ ''a3[1]'' @ [CHR 0x09] @ ''d1[2]'' @ [CHR 0x09] @ ''c1[3]'' @ [CHR 0x09],
             ''e1[0]'' @ [CHR 0x09] @ ''a1[1]'' @ [CHR 0x09] @ ''d2[2]'' @ [CHR 0x09] @ ''c2[3]'' @ [CHR 0x09],
             ''b1[0]'' @ [CHR 0x09] @ ''a2[1]'' @ [CHR 0x09] @ ''c3[3]'' @ [CHR 0x09] @ ''c4[3]'' @ [CHR 0x09]]"
proof -
  have g: "tab_terminated_grid XSIZE YSIZE bricks notebook_solution =
        [''b2[0]'' @ [CHR 0x09] @ ''a3[1]'' @ [CHR 0x09] @ ''d1[2]'' @ [CHR 0x09] @ ''c1[3]'' @ [CHR 0x09],
         ''e1[0]'' @ [CHR 0x09] @ ''a1[1]'' @ [CHR 0x09] @ ''d2[2]'' @ [CHR 0x09] @ ''c2[3]'' @ [CHR 0x09],
         ''b1[0]'' @ [CHR 0x09] @ ''a2[1]'' @ [CHR 0x09] @ ''c3[3]'' @ [CHR 0x09] @ ''c4[3]'' @ [CHR 0x09]]"
    by code_simp
  from display_tab_terminated_grid [OF notebook_build notebook_solution_feasible]
    notebook_build notebook_solution_feasible g
  show ?thesis by simp
qed

end
